theory Spec2Isabelle
  imports Main
begin

section \<open>The deferred-loading client configuration of pkg/tiller/client\_config.go\<close>

text \<open>
  The file defines one struct, \<open>DeferredLoadingClientConfig\<close>, its constructor
  \<open>NewImpersonationClientConfig\<close> and five methods. Everything else it touches belongs
  to imported packages (\<open>clientcmd\<close>, \<open>clientcmdapi\<close>, \<open>restclient\<close>, \<open>v1\<close>): the loader,
  the merged client configuration built from what the loader returns, and the in-cluster
  detector are interface values whose implementations are not part of the file. They are
  taken as parameters here: an interface value is a record of its methods, and every
  method is a function on the state of the outside world \<open>'w\<close> (files, environment),
  returning its Go results together with the new world.

  Conventions of the embedding:
  \<^item> a Go pointer or interface value that may be \<open>nil\<close> is an \<open>option\<close>, \<open>None\<close> being
    \<open>nil\<close>; a Go \<open>error\<close> result is an \<open>error option\<close>;
  \<^item> a method call or field access through \<open>nil\<close> is the outcome \<open>Panic\<close>;
  \<^item> a pointer to a \<open>restclient.Config\<close> is modelled by the value it points to (each call of
    an imported \<open>ClientConfig()\<close> hands out its own object, as client-go does);
  \<^item> an imported method returns (it does not panic) and does not write through a pointer
    it is handed; \<open>Host\<close> stands for the fields of \<open>restclient.Config\<close> the file never
    touches;
  \<^item> every call of an interface method is recorded, in order, in \<open>calls\<close>;
  \<^item> executions are sequential: the mutex \<open>loadingLock\<close> is free at every call and
    released by the deferred \<open>Unlock\<close> on every way out, so that \<open>Lock\<close> and \<open>Unlock\<close> do
    not change the sequential state; the \<open>glog\<close> trace lines are not modelled.
\<close>

subsection \<open>Data of the imported packages\<close>

type_synonym error = string

type_synonym io_Reader = string

text \<open>\<open>restclient.ImpersonationConfig\<close> and the part of \<open>restclient.Config\<close> the file reads
  or writes.\<close>

record ImpersonationConfig =
  UserName :: string
  Groups :: "string list"

record rest_Config =
  Host :: string
  Impersonate :: ImpersonationConfig

text \<open>\<open>clientcmdapi.Context\<close> and \<open>clientcmdapi.Config\<close>. \<open>Contexts\<close> is a
  \<open>map[string]*Context\<close>: a missing key and a stored \<open>nil\<close> both read as \<open>nil\<close>.\<close>

record api_Context =
  ctx_Cluster :: string
  ctx_AuthInfo :: string
  ctx_Namespace :: string

record api_Config =
  CurrentContext :: string
  Contexts :: "string \<rightharpoonup> api_Context"

text \<open>\<open>clientcmd.ConfigOverrides\<close>: only \<open>CurrentContext\<close> is read by the file.\<close>

record ConfigOverrides =
  ov_CurrentContext :: string

subsection \<open>Interfaces\<close>

text \<open>\<open>clientcmd.ClientConfig\<close> (its \<open>ConfigAccess\<close> method is never called by the file).\<close>

record 'w ClientConfig_iface =
  cc_RawConfig :: "'w \<Rightarrow> (api_Config \<times> error option) \<times> 'w"
  cc_ClientConfig :: "'w \<Rightarrow> (rest_Config option \<times> error option) \<times> 'w"
  cc_Namespace :: "'w \<Rightarrow> (string \<times> bool \<times> error option) \<times> 'w"

text \<open>\<open>InClusterConfig\<close> embeds \<open>clientcmd.ClientConfig\<close> and adds \<open>Possible\<close>.\<close>

record 'w InClusterConfig = "'w ClientConfig_iface" +
  Possible :: "'w \<Rightarrow> bool \<times> 'w"

text \<open>\<open>clientcmd.ClientConfigLoader\<close>.\<close>

record 'w ClientConfigLoader =
  Load :: "'w \<Rightarrow> (api_Config option \<times> error option) \<times> 'w"
  IsDefaultConfig :: "rest_Config \<Rightarrow> 'w \<Rightarrow> bool \<times> 'w"

text \<open>The package-level functions and the constant the file imports.\<close>

record 'w packages =
  IsEmptyConfig :: "error \<Rightarrow> bool"
  NewInteractiveClientConfig ::
    "api_Config \<Rightarrow> string \<Rightarrow> ConfigOverrides \<Rightarrow> io_Reader \<Rightarrow> 'w ClientConfigLoader
      \<Rightarrow> 'w ClientConfig_iface"
  NewNonInteractiveClientConfig ::
    "api_Config \<Rightarrow> string \<Rightarrow> ConfigOverrides \<Rightarrow> 'w ClientConfigLoader
      \<Rightarrow> 'w ClientConfig_iface"
  NamespaceDefault :: string

subsection \<open>The struct and the sequential state\<close>

record 'w DeferredLoadingClientConfig =
  loader :: "'w ClientConfigLoader option"
  overrides :: "ConfigOverrides option"
  fallbackReader :: "io_Reader option"
  user :: string
  groups :: "string list"
  clientConfig :: "'w ClientConfig_iface option"
  icc :: "'w InClusterConfig option"

datatype event =
    CallLoad
  | CallIsDefaultConfig
  | CallRawConfig
  | CallClientConfig
  | CallNamespace
  | CallPossible
  | CallInClusterClientConfig
  | CallInClusterNamespace

record 'w machine =
  self :: "'w DeferredLoadingClientConfig"
  world :: 'w
  calls :: "event list"

datatype 'a outcome = Panic | Return 'a

text \<open>One call of an interface method: it runs on the world and is logged.\<close>

definition call :: "event \<Rightarrow> ('w \<Rightarrow> 'r \<times> 'w) \<Rightarrow> 'w machine \<Rightarrow> 'r \<times> 'w machine" where
  "call ev f m =
     (case f (world m) of (r, w') \<Rightarrow> (r, m\<lparr>world := w', calls := calls m @ [ev]\<rparr>))"

text \<open>The calls that consult the in-cluster detector.\<close>

fun in_cluster_event :: "event \<Rightarrow> bool" where
  "in_cluster_event CallPossible = True"
| "in_cluster_event CallInClusterClientConfig = True"
| "in_cluster_event CallInClusterNamespace = True"
| "in_cluster_event _ = False"

subsection \<open>The constructor and the methods\<close>

text \<open>Lines 57--59. The composite literal names four fields; \<open>fallbackReader\<close>,
  \<open>clientConfig\<close> and \<open>icc\<close> keep their zero value \<open>nil\<close>.\<close>

definition NewImpersonationClientConfig ::
  "'w ClientConfigLoader option \<Rightarrow> ConfigOverrides option \<Rightarrow> string \<Rightarrow> string list
    \<Rightarrow> 'w DeferredLoadingClientConfig" where
  "NewImpersonationClientConfig ld ov u gs =
     \<lparr>loader = ld, overrides = ov, fallbackReader = None, user = u, groups = gs,
      clientConfig = None, icc = None\<rparr>"

text \<open>Lines 72--84, the body of the inner \<open>if\<close>: load, build the merged client
  configuration, store it. \<open>Inl\<close> is a \<open>return\<close> out of \<open>createClientConfig\<close>, \<open>Inr\<close>
  falls out of the \<open>if\<close>.\<close>

definition loadClientConfig ::
  "'w packages \<Rightarrow> 'w machine
    \<Rightarrow> (('w ClientConfig_iface option \<times> error option) outcome + unit) \<times> 'w machine" where
  "loadClientConfig K m =
     (case loader (self m) of
        None \<Rightarrow> (Inl Panic, m)
      | Some ld \<Rightarrow>
          (case call CallLoad (Load ld) m of
             ((mergedConfig, err), m1) \<Rightarrow>
               (case err of
                  Some e \<Rightarrow> (Inl (Return (None, Some e)), m1)
                | None \<Rightarrow>
                    (case mergedConfig of
                       None \<Rightarrow> (Inl Panic, m1)
                     | Some mc \<Rightarrow>
                         (case overrides (self m1) of
                            None \<Rightarrow> (Inl Panic, m1)
                          | Some ov \<Rightarrow>
                              (let mergedClientConfig =
                                 (case fallbackReader (self m1) of
                                    Some rd \<Rightarrow>
                                      NewInteractiveClientConfig K mc (ov_CurrentContext ov) ov rd ld
                                  | None \<Rightarrow>
                                      NewNonInteractiveClientConfig K mc (ov_CurrentContext ov) ov ld)
                               in (Inr (),
                                   m1\<lparr>self := (self m1)\<lparr>clientConfig :=
                                         Some mergedClientConfig\<rparr>\<rparr>)))))))"

text \<open>Lines 66--89. Both tests of \<open>config.clientConfig == nil\<close> are kept; sequentially the
  second sees what the first saw.\<close>

definition createClientConfig ::
  "'w packages \<Rightarrow> 'w machine
    \<Rightarrow> ('w ClientConfig_iface option \<times> error option) outcome \<times> 'w machine" where
  "createClientConfig K m =
     (case (if clientConfig (self m) = None
            then (if clientConfig (self m) = None then loadClientConfig K m else (Inr (), m))
            else (Inr (), m)) of
        (Inl returned, m1) \<Rightarrow> (returned, m1)
      | (Inr _, m1) \<Rightarrow> (Return (clientConfig (self m1), None), m1))"

text \<open>Lines 91--98. \<open>clientcmdapi.Config{}\<close> is the zero value.\<close>

definition RawConfig ::
  "'w packages \<Rightarrow> 'w machine \<Rightarrow> (api_Config \<times> error option) outcome \<times> 'w machine" where
  "RawConfig K m =
     (case createClientConfig K m of
        (Panic, m1) \<Rightarrow> (Panic, m1)
      | (Return (_, Some e), m1) \<Rightarrow>
          (Return (\<lparr>CurrentContext = [], Contexts = Map.empty\<rparr>, Some e), m1)
      | (Return (None, None), m1) \<Rightarrow> (Panic, m1)
      | (Return (Some mergedConfig, None), m1) \<Rightarrow>
          (case call CallRawConfig (cc_RawConfig mergedConfig) m1 of
             (r, m2) \<Rightarrow> (Return r, m2)))"

text \<open>Lines 124--133, what follows the \<open>switch\<close> of \<open>ClientConfig\<close>: the in-cluster
  check, then the two assignments through \<open>mergedConfig\<close> and the final \<open>return\<close>.\<close>

definition ClientConfig_inCluster ::
  "rest_Config option \<Rightarrow> error option \<Rightarrow> 'w machine
    \<Rightarrow> (rest_Config option \<times> error option) outcome \<times> 'w machine" where
  "ClientConfig_inCluster mergedConfig err m =
     (case icc (self m) of
        None \<Rightarrow> (Panic, m)
      | Some ic \<Rightarrow>
          (case call CallPossible (Possible ic) m of
             (possible, m1) \<Rightarrow>
               if possible
               then (case call CallInClusterClientConfig (cc_ClientConfig ic) m1 of
                       (r, m2) \<Rightarrow> (Return r, m2))
               else (case mergedConfig of
                       None \<Rightarrow> (Panic, m1)
                     | Some c \<Rightarrow>
                         (Return
                            (Some (c\<lparr>Impersonate := (Impersonate c)
                                      \<lparr>UserName := user (self m1),
                                       Groups := groups (self m1)\<rparr>\<rparr>),
                             err),
                          m1))))"

text \<open>Lines 110--122, the \<open>switch\<close> of \<open>ClientConfig\<close>. It takes its first true case and
  does not fall through to the next: with a non-nil error the second case is not looked
  at. \<open>Inl\<close> is a \<open>return\<close> out of \<open>ClientConfig\<close>, \<open>Inr\<close> leaves the \<open>switch\<close>.\<close>

definition ClientConfig_switch ::
  "'w packages \<Rightarrow> rest_Config option \<Rightarrow> error option \<Rightarrow> 'w machine
    \<Rightarrow> ((rest_Config option \<times> error option) outcome + unit) \<times> 'w machine" where
  "ClientConfig_switch K mergedConfig err m =
     (case err of
        Some e \<Rightarrow>
          if \<not> IsEmptyConfig K e then (Inl (Return (None, Some e)), m) else (Inr (), m)
      | None \<Rightarrow>
          (case mergedConfig of
             Some c \<Rightarrow>
               (case loader (self m) of
                  None \<Rightarrow> (Inl Panic, m)
                | Some ld \<Rightarrow>
                    (case call CallIsDefaultConfig (IsDefaultConfig ld c) m of
                       (isDefault, m1) \<Rightarrow>
                         if \<not> isDefault then (Inl (Return (Some c, None)), m1)
                         else (Inr (), m1)))
           | None \<Rightarrow> (Inr (), m)))"

text \<open>Lines 101--134.\<close>

definition ClientConfig ::
  "'w packages \<Rightarrow> 'w machine
    \<Rightarrow> (rest_Config option \<times> error option) outcome \<times> 'w machine" where
  "ClientConfig K m =
     (case createClientConfig K m of
        (Panic, m1) \<Rightarrow> (Panic, m1)
      | (Return (_, Some e), m1) \<Rightarrow> (Return (None, Some e), m1)
      | (Return (None, None), m1) \<Rightarrow> (Panic, m1)
      | (Return (Some mergedClientConfig, None), m1) \<Rightarrow>
          (case call CallClientConfig (cc_ClientConfig mergedClientConfig) m1 of
             ((mergedConfig, err), m2) \<Rightarrow>
               (case ClientConfig_switch K mergedConfig err m2 of
                  (Inl returned, m3) \<Rightarrow> (returned, m3)
                | (Inr _, m3) \<Rightarrow> ClientConfig_inCluster mergedConfig err m3)))"

text \<open>Lines 151--168 of \<open>Namespace\<close>, reached when the in-cluster detector is possible.\<close>

definition Namespace_inCluster ::
  "'w packages \<Rightarrow> 'w ClientConfig_iface \<Rightarrow> 'w InClusterConfig \<Rightarrow> string \<Rightarrow> 'w machine
    \<Rightarrow> (string \<times> bool \<times> error option) outcome \<times> 'w machine" where
  "Namespace_inCluster K mergedKubeConfig ic ns m =
     (if length ns > 0
      then (if ns \<noteq> NamespaceDefault K then (Return (ns, False, None), m)
            else (case call CallRawConfig (cc_RawConfig mergedKubeConfig) m of
                    ((raw, err), m1) \<Rightarrow>
                      if err = None \<and>
                         (case Contexts raw (CurrentContext raw) of
                            None \<Rightarrow> False
                          | Some context \<Rightarrow> length (ctx_Namespace context) > 0)
                      then (Return (ns, False, None), m1)
                      else (case call CallInClusterNamespace (cc_Namespace ic) m1 of
                              (r, m2) \<Rightarrow> (Return r, m2))))
      else (case call CallInClusterNamespace (cc_Namespace ic) m of
              (r, m1) \<Rightarrow> (Return r, m1)))"

text \<open>Lines 137--169. \<open>||\<close> evaluates from the left and stops at the first true operand,
  so \<open>config.icc.Possible()\<close> is called only when the first two operands are false.\<close>

definition Namespace ::
  "'w packages \<Rightarrow> 'w machine
    \<Rightarrow> (string \<times> bool \<times> error option) outcome \<times> 'w machine" where
  "Namespace K m =
     (case createClientConfig K m of
        (Panic, m1) \<Rightarrow> (Panic, m1)
      | (Return (_, Some e), m1) \<Rightarrow> (Return ([], False, Some e), m1)
      | (Return (None, None), m1) \<Rightarrow> (Panic, m1)
      | (Return (Some mergedKubeConfig, None), m1) \<Rightarrow>
          (case call CallNamespace (cc_Namespace mergedKubeConfig) m1 of
             ((ns, overridden, err), m2) \<Rightarrow>
               if (case err of None \<Rightarrow> False | Some e \<Rightarrow> \<not> IsEmptyConfig K e) \<or> overridden
               then (Return (ns, overridden, err), m2)
               else (case icc (self m2) of
                       None \<Rightarrow> (Panic, m2)
                     | Some ic \<Rightarrow>
                         (case call CallPossible (Possible ic) m2 of
                            (possible, m3) \<Rightarrow>
                              if \<not> possible then (Return (ns, overridden, err), m3)
                              else Namespace_inCluster K mergedKubeConfig ic ns m3))))"

text \<open>Lines 172--174.\<close>

definition ConfigAccess :: "'w machine \<Rightarrow> 'w ClientConfigLoader option" where
  "ConfigAccess m = loader (self m)"

subsection \<open>Sequences of method calls\<close>

text \<open>The state a method call leaves behind, whatever it returned, and the state after
  a list of calls made one after the other on the same struct.\<close>

datatype operation =
  Do_createClientConfig | Do_RawConfig | Do_ClientConfig | Do_Namespace | Do_ConfigAccess

fun invoke :: "'w packages \<Rightarrow> operation \<Rightarrow> 'w machine \<Rightarrow> 'w machine" where
  "invoke K Do_createClientConfig m = snd (createClientConfig K m)"
| "invoke K Do_RawConfig m = snd (RawConfig K m)"
| "invoke K Do_ClientConfig m = snd (ClientConfig K m)"
| "invoke K Do_Namespace m = snd (Namespace K m)"
| "invoke K Do_ConfigAccess m = m"

fun invokes :: "'w packages \<Rightarrow> operation list \<Rightarrow> 'w machine \<Rightarrow> 'w machine" where
  "invokes K [] m = m"
| "invokes K (x # xs) m = invokes K xs (invoke K x m)"

text \<open>\<open>continues m m'\<close>: from \<open>m\<close> to \<open>m'\<close> the struct is untouched, the loader has not
  been asked to load, and a struct without detector has made no in-cluster call.\<close>

definition continues :: "'w machine \<Rightarrow> 'w machine \<Rightarrow> bool" where
  "continues m m' =
     (self m' = self m \<and>
      filter (\<lambda>e. e = CallLoad) (calls m') = filter (\<lambda>e. e = CallLoad) (calls m) \<and>
      (if icc (self m) = None
       then filter in_cluster_event (calls m') = filter in_cluster_event (calls m)
       else True))"

text \<open>The same machine with another impersonation identity stored in the struct.\<close>

definition withIdentity :: "string \<Rightarrow> string list \<Rightarrow> 'w machine \<Rightarrow> 'w machine" where
  "withIdentity u gs m = m\<lparr>self := (self m)\<lparr>user := u, groups := gs\<rparr>\<rparr>"

subsection \<open>Sample collaborators\<close>

text \<open>Test doubles on which the theorems below are instantiated. The world is the number
  of \<open>Load\<close> calls made so far: \<open>sample_loader\<close> fails on the first one and succeeds from
  then on. Every other method answers with the value it is built from and leaves the
  world as it is.\<close>

definition sample_raw :: api_Config where
  "sample_raw =
     \<lparr>CurrentContext = ''dev'',
      Contexts = [''dev'' \<mapsto>
        \<lparr>ctx_Cluster = ''c1'', ctx_AuthInfo = ''admin'', ctx_Namespace = ''default''\<rparr>]\<rparr>"

definition sample_rest :: rest_Config where
  "sample_rest =
     \<lparr>Host = ''https://10.0.0.1:6443'', Impersonate = \<lparr>UserName = [], Groups = []\<rparr>\<rparr>"

definition in_cluster_rest :: rest_Config where
  "in_cluster_rest =
     \<lparr>Host = ''https://kubernetes.default.svc'',
      Impersonate = \<lparr>UserName = [], Groups = []\<rparr>\<rparr>"

definition sample_handle ::
  "rest_Config option \<times> error option \<Rightarrow> string \<times> bool \<times> error option
    \<Rightarrow> nat ClientConfig_iface" where
  "sample_handle cfg ns =
     \<lparr>cc_RawConfig = (\<lambda>w. ((sample_raw, None), w)),
      cc_ClientConfig = (\<lambda>w. (cfg, w)),
      cc_Namespace = (\<lambda>w. (ns, w))\<rparr>"

definition sample_loader :: "bool \<Rightarrow> nat ClientConfigLoader" where
  "sample_loader isDefault =
     \<lparr>Load = (\<lambda>w. if w = 0 then ((None, Some ''unreadable''), Suc w)
                   else ((Some sample_raw, None), Suc w)),
      IsDefaultConfig = (\<lambda>c w. (isDefault, w))\<rparr>"

definition sample_icc :: "bool \<Rightarrow> nat InClusterConfig" where
  "sample_icc possible =
     \<lparr>cc_RawConfig = (\<lambda>w. ((\<lparr>CurrentContext = [], Contexts = Map.empty\<rparr>, None), w)),
      cc_ClientConfig = (\<lambda>w. ((Some in_cluster_rest, None), w)),
      cc_Namespace = (\<lambda>w. ((''kube-system'', False, None), w)),
      Possible = (\<lambda>w. (possible, w))\<rparr>"

definition sample_packages :: "nat ClientConfig_iface \<Rightarrow> nat packages" where
  "sample_packages h =
     \<lparr>IsEmptyConfig = (\<lambda>e. e = ''no configuration has been provided''),
      NewInteractiveClientConfig = (\<lambda>mc ctx ov rd ld. h),
      NewNonInteractiveClientConfig = (\<lambda>mc ctx ov ld. h),
      NamespaceDefault = ''default''\<rparr>"

text \<open>A struct from the constructor, with the detector field set as a test of the package
  would set it, in the world \<open>w\<close>.\<close>

definition sample_machine :: "bool \<Rightarrow> nat InClusterConfig option \<Rightarrow> nat \<Rightarrow> nat machine" where
  "sample_machine isDefault ic w =
     \<lparr>self = (NewImpersonationClientConfig (Some (sample_loader isDefault))
                (Some \<lparr>ov_CurrentContext = ''dev''\<rparr>) ''alice'' [''ops''])\<lparr>icc := ic\<rparr>,
      world = w, calls = []\<rparr>"

section \<open>Basic facts\<close>

lemma loadClientConfig_frame:
  assumes "loadClientConfig K m = (r, m1)"
  shows "loader (self m1) = loader (self m)"
    and "overrides (self m1) = overrides (self m)"
    and "fallbackReader (self m1) = fallbackReader (self m)"
    and "user (self m1) = user (self m)"
    and "groups (self m1) = groups (self m)"
    and "icc (self m1) = icc (self m)"
    and "calls m1 = calls m \<or> calls m1 = calls m @ [CallLoad]"
  using assms
  by (auto simp: loadClientConfig_def call_def Let_def
      split: option.splits prod.splits)

lemma createClientConfig_cached:
  "clientConfig (self m) = Some h \<Longrightarrow> createClientConfig K m = (Return (Some h, None), m)"
  by (simp add: createClientConfig_def)

lemma createClientConfig_uncached:
  "clientConfig (self m) = None \<Longrightarrow>
   createClientConfig K m =
     (case loadClientConfig K m of
        (Inl returned, m1) \<Rightarrow> (returned, m1)
      | (Inr _, m1) \<Rightarrow> (Return (clientConfig (self m1), None), m1))"
  by (simp add: createClientConfig_def)

lemma createClientConfig_frame:
  assumes "createClientConfig K m = (r, m1)"
  shows "loader (self m1) = loader (self m)"
    and "overrides (self m1) = overrides (self m)"
    and "fallbackReader (self m1) = fallbackReader (self m)"
    and "user (self m1) = user (self m)"
    and "groups (self m1) = groups (self m)"
    and "icc (self m1) = icc (self m)"
    and "calls m1 = calls m \<or> calls m1 = calls m @ [CallLoad]"
proof -
  show "loader (self m1) = loader (self m)"
    using assms loadClientConfig_frame(1) [of K m]
    by (cases "clientConfig (self m)")
      (auto simp: createClientConfig_cached createClientConfig_uncached
        split: prod.splits sum.splits)
  show "overrides (self m1) = overrides (self m)"
    using assms loadClientConfig_frame(2) [of K m]
    by (cases "clientConfig (self m)")
      (auto simp: createClientConfig_cached createClientConfig_uncached
        split: prod.splits sum.splits)
  show "fallbackReader (self m1) = fallbackReader (self m)"
    using assms loadClientConfig_frame(3) [of K m]
    by (cases "clientConfig (self m)")
      (auto simp: createClientConfig_cached createClientConfig_uncached
        split: prod.splits sum.splits)
  show "user (self m1) = user (self m)"
    using assms loadClientConfig_frame(4) [of K m]
    by (cases "clientConfig (self m)")
      (auto simp: createClientConfig_cached createClientConfig_uncached
        split: prod.splits sum.splits)
  show "groups (self m1) = groups (self m)"
    using assms loadClientConfig_frame(5) [of K m]
    by (cases "clientConfig (self m)")
      (auto simp: createClientConfig_cached createClientConfig_uncached
        split: prod.splits sum.splits)
  show "icc (self m1) = icc (self m)"
    using assms loadClientConfig_frame(6) [of K m]
    by (cases "clientConfig (self m)")
      (auto simp: createClientConfig_cached createClientConfig_uncached
        split: prod.splits sum.splits)
  show "calls m1 = calls m \<or> calls m1 = calls m @ [CallLoad]"
    using assms loadClientConfig_frame(7) [of K m]
    by (cases "clientConfig (self m)")
      (auto simp: createClientConfig_cached createClientConfig_uncached
        split: prod.splits sum.splits)
qed

lemma createClientConfig_sets:
  assumes "createClientConfig K m = (Return (Some h, None), m1)"
  shows "clientConfig (self m1) = Some h"
proof (cases "clientConfig (self m)")
  case None
  with assms show ?thesis
    by (auto simp: createClientConfig_uncached loadClientConfig_def call_def Let_def
        split: prod.splits sum.splits option.splits)
next
  case (Some h')
  with assms show ?thesis by (simp add: createClientConfig_cached)
qed

lemma createClientConfig_in_cluster:
  "createClientConfig K m = (r, m1) \<Longrightarrow>
   filter in_cluster_event (calls m1) = filter in_cluster_event (calls m)"
  using createClientConfig_frame(7) [of K m r m1] by auto

subsection \<open>What a call leaves unchanged\<close>

lemma continues_refl: "continues m m"
  by (simp add: continues_def)

lemma continues_trans: "continues m m1 \<Longrightarrow> continues m1 m2 \<Longrightarrow> continues m m2"
  by (simp add: continues_def split: if_splits)

lemma call_continues:
  assumes "call ev f m = (r, m1)" and "ev \<noteq> CallLoad"
    and "\<not> in_cluster_event ev \<or> icc (self m) \<noteq> None"
  shows "continues m m1"
  using assms by (auto simp: call_def continues_def split: prod.splits)

lemma ClientConfig_switch_continues:
  assumes "ClientConfig_switch K c e m = (r, m1)"
  shows "continues m m1"
proof (cases e)
  case (Some x)
  with assms show ?thesis
    by (auto simp: ClientConfig_switch_def continues_refl split: if_splits)
next
  case None
  show ?thesis
  proof (cases c)
    case nil: None
    with None assms show ?thesis by (simp add: ClientConfig_switch_def continues_refl)
  next
    case (Some cfg)
    show ?thesis
    proof (cases "loader (self m)")
      case noloader: None
      with None Some assms show ?thesis by (simp add: ClientConfig_switch_def continues_refl)
    next
      case (Some ld)
      obtain d m2 where c: "call CallIsDefaultConfig (IsDefaultConfig ld cfg) m = (d, m2)"
        by (cases "call CallIsDefaultConfig (IsDefaultConfig ld cfg) m")
      have "m1 = m2"
        using assms None \<open>c = Some cfg\<close> Some c
        by (auto simp: ClientConfig_switch_def split: if_splits)
      with call_continues [OF c] show ?thesis by simp
    qed
  qed
qed

lemma ClientConfig_inCluster_continues:
  assumes "ClientConfig_inCluster c e m = (r, m1)"
  shows "continues m m1"
proof (cases "icc (self m)")
  case None
  with assms show ?thesis by (simp add: ClientConfig_inCluster_def continues_refl)
next
  case (Some ic)
  obtain p m2 where c: "call CallPossible (Possible ic) m = (p, m2)"
    by (cases "call CallPossible (Possible ic) m")
  have s2: "continues m m2" using call_continues [OF c] Some by simp
  have i2: "icc (self m2) \<noteq> None" using c Some by (auto simp: call_def split: prod.splits)
  show ?thesis
  proof (cases p)
    case True
    obtain r3 m3 where c3: "call CallInClusterClientConfig (cc_ClientConfig ic) m2 = (r3, m3)"
      by (cases "call CallInClusterClientConfig (cc_ClientConfig ic) m2")
    have "m1 = m3" using assms Some c True c3 by (simp add: ClientConfig_inCluster_def)
    moreover have "continues m2 m3" using call_continues [OF c3] i2 by simp
    ultimately show ?thesis using s2 continues_trans by blast
  next
    case False
    have "m1 = m2" using assms Some c False
      by (auto simp: ClientConfig_inCluster_def split: option.splits)
    with s2 show ?thesis by simp
  qed
qed

lemma Namespace_inCluster_continues:
  assumes "Namespace_inCluster K h ic ns m = (r, m1)" and "icc (self m) \<noteq> None"
  shows "continues m m1"
proof -
  obtain r2 m2 where c2: "call CallRawConfig (cc_RawConfig h) m = (r2, m2)"
    by (cases "call CallRawConfig (cc_RawConfig h) m")
  obtain r3 m3 where c3: "call CallInClusterNamespace (cc_Namespace ic) m2 = (r3, m3)"
    by (cases "call CallInClusterNamespace (cc_Namespace ic) m2")
  obtain r4 m4 where c4: "call CallInClusterNamespace (cc_Namespace ic) m = (r4, m4)"
    by (cases "call CallInClusterNamespace (cc_Namespace ic) m")
  have s2: "continues m m2" using call_continues [OF c2] by simp
  have "icc (self m2) \<noteq> None" using c2 assms(2) by (auto simp: call_def split: prod.splits)
  then have s3: "continues m2 m3" using call_continues [OF c3] by simp
  have s4: "continues m m4" using call_continues [OF c4] assms(2) by simp
  have "m1 = m \<or> m1 = m2 \<or> m1 = m3 \<or> m1 = m4"
    using assms(1) c2 c3 c4
    by (auto simp: Namespace_inCluster_def split: if_splits prod.splits)
  then show ?thesis
    using s2 s3 s4 continues_refl continues_trans by blast
qed

lemma RawConfig_continues:
  assumes "createClientConfig K m = (r0, m0)" and "RawConfig K m = (r, m1)"
  shows "continues m0 m1"
proof -
  consider (stop) "m1 = m0"
    | (go) h where "r0 = Return (Some h, None)"
    using assms
    by (auto simp: RawConfig_def split: outcome.splits option.splits prod.splits)
  then show ?thesis
  proof cases
    case stop
    then show ?thesis by (simp add: continues_refl)
  next
    case go
    obtain r2 m2 where c2: "call CallRawConfig (cc_RawConfig h) m0 = (r2, m2)"
      by (cases "call CallRawConfig (cc_RawConfig h) m0")
    have "m1 = m2" using assms go c2 by (simp add: RawConfig_def)
    with call_continues [OF c2] show ?thesis by simp
  qed
qed

lemma ClientConfig_continues:
  assumes "createClientConfig K m = (r0, m0)" and "ClientConfig K m = (r, m1)"
  shows "continues m0 m1"
proof -
  consider (stop) "m1 = m0"
    | (go) h where "r0 = Return (Some h, None)"
    using assms
    by (auto simp: ClientConfig_def split: outcome.splits option.splits prod.splits)
  then show ?thesis
  proof cases
    case stop
    then show ?thesis by (simp add: continues_refl)
  next
    case go
    obtain c e m2 where c2: "call CallClientConfig (cc_ClientConfig h) m0 = ((c, e), m2)"
      by (cases "call CallClientConfig (cc_ClientConfig h) m0") auto
    obtain r3 m3 where c3: "ClientConfig_switch K c e m2 = (r3, m3)"
      by (cases "ClientConfig_switch K c e m2")
    obtain r4 m4 where c4: "ClientConfig_inCluster c e m3 = (r4, m4)"
      by (cases "ClientConfig_inCluster c e m3")
    have s2: "continues m0 m2" using call_continues [OF c2] by simp
    have s3: "continues m2 m3" using c3 by (rule ClientConfig_switch_continues)
    have s4: "continues m3 m4" using c4 by (rule ClientConfig_inCluster_continues)
    have "m1 = m3 \<or> m1 = m4"
      using assms go c2 c3 c4 by (auto simp: ClientConfig_def split: sum.splits)
    then show ?thesis using s2 s3 s4 continues_trans by blast
  qed
qed

lemma Namespace_continues:
  assumes "createClientConfig K m = (r0, m0)" and "Namespace K m = (r, m1)"
  shows "continues m0 m1"
proof -
  consider (stop) "m1 = m0"
    | (go) h where "r0 = Return (Some h, None)"
    using assms
    by (auto simp: Namespace_def split: outcome.splits option.splits prod.splits)
  then show ?thesis
  proof cases
    case stop
    then show ?thesis by (simp add: continues_refl)
  next
    case go
    obtain ns ov e m2 where c2: "call CallNamespace (cc_Namespace h) m0 = ((ns, ov, e), m2)"
      by (cases "call CallNamespace (cc_Namespace h) m0") auto
    have s2: "continues m0 m2" using call_continues [OF c2] by simp
    show ?thesis
    proof (cases "icc (self m2)")
      case None
      have "m1 = m2" using assms go c2 None by (auto simp: Namespace_def split: if_splits)
      with s2 show ?thesis by simp
    next
      case (Some ic)
      obtain p m3 where c3: "call CallPossible (Possible ic) m2 = (p, m3)"
        by (cases "call CallPossible (Possible ic) m2")
      obtain r4 m4 where c4: "Namespace_inCluster K h ic ns m3 = (r4, m4)"
        by (cases "Namespace_inCluster K h ic ns m3")
      have s3: "continues m2 m3" using call_continues [OF c3] Some by simp
      have "icc (self m3) \<noteq> None" using c3 Some by (auto simp: call_def split: prod.splits)
      then have s4: "continues m3 m4" using Namespace_inCluster_continues [OF c4] by simp
      have "m1 = m2 \<or> m1 = m3 \<or> m1 = m4"
        using assms go c2 Some c3 c4 by (auto simp: Namespace_def split: if_splits)
      then show ?thesis using s2 s3 s4 continues_trans by blast
    qed
  qed
qed

lemma invoke_continues:
  "invoke K x m = m \<or> continues (snd (createClientConfig K m)) (invoke K x m)"
proof (cases x)
  case Do_createClientConfig
  then show ?thesis by (simp add: continues_refl)
next
  case Do_RawConfig
  then show ?thesis
    using RawConfig_continues [of K m "fst (createClientConfig K m)"
        "snd (createClientConfig K m)" "fst (RawConfig K m)" "snd (RawConfig K m)"]
    by simp
next
  case Do_ClientConfig
  then show ?thesis
    using ClientConfig_continues [of K m "fst (createClientConfig K m)"
        "snd (createClientConfig K m)" "fst (ClientConfig K m)" "snd (ClientConfig K m)"]
    by simp
next
  case Do_Namespace
  then show ?thesis
    using Namespace_continues [of K m "fst (createClientConfig K m)"
        "snd (createClientConfig K m)" "fst (Namespace K m)" "snd (Namespace K m)"]
    by simp
next
  case Do_ConfigAccess
  then show ?thesis by simp
qed

lemma invoke_cached:
  assumes "clientConfig (self m) = Some h"
  shows "continues m (invoke K x m)"
  using invoke_continues [of K x m] assms
  by (auto simp: createClientConfig_cached continues_refl)

lemma invokes_cached:
  "clientConfig (self m) = Some h \<Longrightarrow> continues m (invokes K ops m)"
proof (induction ops arbitrary: m)
  case Nil
  then show ?case by (simp add: continues_refl)
next
  case (Cons x xs)
  have step: "continues m (invoke K x m)"
    using Cons.prems by (rule invoke_cached)
  then have "clientConfig (self (invoke K x m)) = Some h"
    using Cons.prems by (simp add: continues_def)
  then have "continues (invoke K x m) (invokes K xs (invoke K x m))"
    by (rule Cons.IH)
  with step show ?case
    using continues_trans by fastforce
qed

lemma createClientConfig_load_error:
  assumes "clientConfig (self m) = None"
    and "loader (self m) = Some ld"
    and "Load ld (world m) = ((mc, Some e), w1)"
  shows "createClientConfig K m =
           (Return (None, Some e), m\<lparr>world := w1, calls := calls m @ [CallLoad]\<rparr>)"
  using assms by (simp add: createClientConfig_def loadClientConfig_def call_def)

lemma createClientConfig_load_again:
  assumes "clientConfig (self m) = None"
    and "loader (self m) = Some ld"
    and "Load ld (world m) = (r, w1)"
  shows "world (snd (createClientConfig K m)) = w1"
    and "calls (snd (createClientConfig K m)) = calls m @ [CallLoad]"
    and "fst (createClientConfig K m) =
           (case r of
              (_, Some e) \<Rightarrow> Return (None, Some e)
            | (None, None) \<Rightarrow> Panic
            | (Some mc, None) \<Rightarrow>
                (case overrides (self m) of
                   None \<Rightarrow> Panic
                 | Some ov \<Rightarrow>
                     Return
                      (Some (case fallbackReader (self m) of
                               Some rd \<Rightarrow>
                                 NewInteractiveClientConfig K mc (ov_CurrentContext ov) ov rd ld
                             | None \<Rightarrow>
                                 NewNonInteractiveClientConfig K mc (ov_CurrentContext ov) ov ld),
                       None)))"
  using assms
  by (auto simp: createClientConfig_def loadClientConfig_def call_def
      split: option.splits prod.splits)

lemma ClientConfig_resolved:
  assumes "createClientConfig K m = (Return (Some h, None), m1)"
    and "cc_ClientConfig h (world m1) = ((c, e), w2)"
  shows "ClientConfig K m =
    (case ClientConfig_switch K c e (m1\<lparr>world := w2, calls := calls m1 @ [CallClientConfig]\<rparr>) of
       (Inl returned, m3) \<Rightarrow> (returned, m3)
     | (Inr _, m3) \<Rightarrow> ClientConfig_inCluster c e m3)"
  using assms by (simp add: ClientConfig_def call_def)

lemma ClientConfig_inCluster_possible:
  assumes "icc (self m) = Some ic"
    and "Possible ic (world m) = (True, w4)"
    and "cc_ClientConfig ic w4 = (r, w5)"
  shows "ClientConfig_inCluster c e m =
    (Return r, m\<lparr>world := w5, calls := calls m @ [CallPossible, CallInClusterClientConfig]\<rparr>)"
  using assms by (simp add: ClientConfig_inCluster_def call_def)

lemma ClientConfig_inCluster_impossible:
  assumes "icc (self m) = Some ic"
    and "Possible ic (world m) = (False, w4)"
  shows "ClientConfig_inCluster c e m =
    (case c of
       None \<Rightarrow> (Panic, m\<lparr>world := w4, calls := calls m @ [CallPossible]\<rparr>)
     | Some cfg \<Rightarrow>
         (Return (Some (cfg\<lparr>Impersonate := (Impersonate cfg)
                     \<lparr>UserName := user (self m), Groups := groups (self m)\<rparr>\<rparr>), e),
          m\<lparr>world := w4, calls := calls m @ [CallPossible]\<rparr>))"
  using assms by (simp add: ClientConfig_inCluster_def call_def split: option.splits)

lemma ClientConfig_inCluster_nil:
  "icc (self m) = None \<Longrightarrow> ClientConfig_inCluster c e m = (Panic, m)"
  by (simp add: ClientConfig_inCluster_def)

lemma withIdentity_fields:
  "self (withIdentity u gs m) = (self m)\<lparr>user := u, groups := gs\<rparr>"
  "world (withIdentity u gs m) = world m"
  "calls (withIdentity u gs m) = calls m"
  by (simp_all add: withIdentity_def)

lemma loadClientConfig_withIdentity:
  "loadClientConfig K (withIdentity u gs m) =
     (fst (loadClientConfig K m), withIdentity u gs (snd (loadClientConfig K m)))"
  by (auto simp: loadClientConfig_def call_def withIdentity_def Let_def
      split: option.splits prod.splits)

lemma createClientConfig_withIdentity:
  "createClientConfig K (withIdentity u gs m) =
     (fst (createClientConfig K m), withIdentity u gs (snd (createClientConfig K m)))"
proof (cases "clientConfig (self m)")
  case None
  then have "clientConfig (self (withIdentity u gs m)) = None"
    by (simp add: withIdentity_def)
  then show ?thesis
    using None
    by (simp add: createClientConfig_uncached loadClientConfig_withIdentity
        withIdentity_fields split: prod.splits sum.splits)
next
  case (Some h)
  then have "clientConfig (self (withIdentity u gs m)) = Some h"
    by (simp add: withIdentity_def)
  then show ?thesis
    using Some by (simp add: createClientConfig_cached)
qed

lemma ClientConfig_switch_withIdentity:
  "ClientConfig_switch K c e (withIdentity u gs m) =
     (fst (ClientConfig_switch K c e m), withIdentity u gs (snd (ClientConfig_switch K c e m)))"
  by (auto simp: ClientConfig_switch_def call_def withIdentity_def
      split: option.splits prod.splits)

lemma Namespace_resolved:
  assumes "createClientConfig K m = (Return (Some h, None), m1)"
    and "cc_Namespace h (world m1) = ((ns, ov, e), w2)"
    and "m2 = m1\<lparr>world := w2, calls := calls m1 @ [CallNamespace]\<rparr>"
  shows "Namespace K m =
    (if (case e of None \<Rightarrow> False | Some x \<Rightarrow> \<not> IsEmptyConfig K x) \<or> ov
     then (Return (ns, ov, e), m2)
     else (case icc (self m1) of
             None \<Rightarrow> (Panic, m2)
           | Some ic \<Rightarrow>
               (case call CallPossible (Possible ic) m2 of
                  (possible, m3) \<Rightarrow>
                    if \<not> possible then (Return (ns, ov, e), m3)
                    else Namespace_inCluster K h ic ns m3)))"
proof -
  have "call CallNamespace (cc_Namespace h) m1 = ((ns, ov, e), m2)"
    using assms(2,3) by (simp add: call_def)
  moreover have "icc (self m2) = icc (self m1)"
    using assms(3) by simp
  ultimately show ?thesis
    using assms(1) by (simp add: Namespace_def)
qed

lemma Namespace_inCluster_explicit_default:
  assumes "ns = NamespaceDefault K" and "ns \<noteq> []"
    and "cc_RawConfig h (world m) = ((raw, None), w4)"
    and "Contexts raw (CurrentContext raw) = Some context"
    and "ctx_Namespace context \<noteq> []"
  shows "Namespace_inCluster K h ic ns m =
    (Return (ns, False, None), m\<lparr>world := w4, calls := calls m @ [CallRawConfig]\<rparr>)"
  using assms by (simp add: Namespace_inCluster_def call_def)

subsection \<open>What sequences of calls keep\<close>

lemma loadClientConfig_self:
  "self (snd (loadClientConfig K m)) = self m \<or>
   (\<exists>mc ldr ovr w1. loader (self m) = Some ldr \<and> overrides (self m) = Some ovr \<and>
      Load ldr (world m) = ((Some mc, None), w1) \<and>
      self (snd (loadClientConfig K m)) =
        (self m)\<lparr>clientConfig := Some
          (case fallbackReader (self m) of
             Some rd \<Rightarrow> NewInteractiveClientConfig K mc (ov_CurrentContext ovr) ovr rd ldr
           | None \<Rightarrow> NewNonInteractiveClientConfig K mc (ov_CurrentContext ovr) ovr ldr)\<rparr>)"
  by (auto simp: loadClientConfig_def call_def Let_def split: option.splits prod.splits)

lemma createClientConfig_self:
  "self (snd (createClientConfig K m)) = self m \<or>
   (clientConfig (self m) = None \<and>
    (\<exists>mc ldr ovr w1. loader (self m) = Some ldr \<and> overrides (self m) = Some ovr \<and>
      Load ldr (world m) = ((Some mc, None), w1) \<and>
      self (snd (createClientConfig K m)) =
        (self m)\<lparr>clientConfig := Some
          (case fallbackReader (self m) of
             Some rd \<Rightarrow> NewInteractiveClientConfig K mc (ov_CurrentContext ovr) ovr rd ldr
           | None \<Rightarrow> NewNonInteractiveClientConfig K mc (ov_CurrentContext ovr) ovr ldr)\<rparr>))"
proof (cases "clientConfig (self m)")
  case None
  have "self (snd (createClientConfig K m)) = self (snd (loadClientConfig K m))"
    using None by (simp add: createClientConfig_uncached split: prod.splits sum.splits)
  then show ?thesis
    using loadClientConfig_self [of K m] None by simp
next
  case (Some h)
  then show ?thesis by (simp add: createClientConfig_cached)
qed

lemma invoke_self:
  "self (invoke K x m) = self m \<or> self (invoke K x m) = self (snd (createClientConfig K m))"
  using invoke_continues [of K x m] by (auto simp: continues_def)

lemma invokes_invariant:
  assumes step: "\<And>m x. I (self m) \<Longrightarrow> I (self (invoke K x m))"
    and "I (self m)"
  shows "I (self (invokes K ops m))"
  using assms(2)
proof (induction ops arbitrary: m)
  case Nil
  then show ?case by simp
next
  case (Cons x xs)
  from Cons.prems have "I (self (invoke K x m))" by (rule step)
  then have "I (self (invokes K xs (invoke K x m)))" by (rule Cons.IH)
  then show ?case by simp
qed

lemma invoke_detector: "icc (self (invoke K x m)) = icc (self m)"
  using invoke_self [of K x m]
    createClientConfig_frame(6) [of K m "fst (createClientConfig K m)"
      "snd (createClientConfig K m)"]
  by auto

lemma invokes_detector: "icc (self (invokes K ops m)) = icc (self m)"
  by (induction ops arbitrary: m) (simp_all add: invoke_detector)

lemma invoke_no_detector:
  assumes "icc (self m) = None"
  shows "filter in_cluster_event (calls (invoke K x m)) = filter in_cluster_event (calls m)"
proof -
  let ?res = "snd (createClientConfig K m)"
  have c: "createClientConfig K m = (fst (createClientConfig K m), ?res)" by simp
  have i: "icc (self ?res) = None"
    using createClientConfig_frame(6) [OF c] assms by simp
  have f: "filter in_cluster_event (calls ?res) = filter in_cluster_event (calls m)"
    using c by (rule createClientConfig_in_cluster)
  from invoke_continues [of K x m] show ?thesis
  proof
    assume "invoke K x m = m"
    then show ?thesis by simp
  next
    assume "continues ?res (invoke K x m)"
    then show ?thesis using i f by (simp add: continues_def)
  qed
qed

lemma invokes_no_detector:
  "icc (self m) = None \<Longrightarrow>
   filter in_cluster_event (calls (invokes K ops m)) = filter in_cluster_event (calls m)"
proof (induction ops arbitrary: m)
  case Nil
  then show ?case by simp
next
  case (Cons x xs)
  have "icc (self (invoke K x m)) = None"
    using Cons.prems by (simp add: invoke_detector)
  then have "filter in_cluster_event (calls (invokes K xs (invoke K x m))) =
      filter in_cluster_event (calls (invoke K x m))"
    by (rule Cons.IH)
  then show ?case
    using invoke_no_detector [OF Cons.prems] by simp
qed

lemmas sample_defs =
  sample_raw_def sample_rest_def in_cluster_rest_def sample_handle_def sample_loader_def
  sample_icc_def sample_packages_def sample_machine_def NewImpersonationClientConfig_def

section \<open>The claims\<close>

text \<open>
  C1. When the merged client configuration is retrieved without error, is not \<open>nil\<close> and
  is classified by the loader as not the default one, \<open>ClientConfig\<close> returns it with a
  \<open>nil\<close> error. The only calls made after \<open>createClientConfig\<close> are the retrieval and
  \<open>IsDefaultConfig\<close>: the in-cluster detector is not consulted, whatever it would answer.
\<close>

theorem explicit_config_precedence:
  assumes "createClientConfig K m = (Return (Some h, None), m1)"
    and "cc_ClientConfig h (world m1) = ((Some c, None), w2)"
    and "loader (self m1) = Some ld"
    and "IsDefaultConfig ld c w2 = (False, w3)"
  shows "ClientConfig K m =
           (Return (Some c, None),
            m1\<lparr>world := w3, calls := calls m1 @ [CallClientConfig, CallIsDefaultConfig]\<rparr>)
         \<and> filter in_cluster_event (calls (snd (ClientConfig K m))) =
             filter in_cluster_event (calls m)"
proof -
  have run: "ClientConfig K m =
      (Return (Some c, None),
       m1\<lparr>world := w3, calls := calls m1 @ [CallClientConfig, CallIsDefaultConfig]\<rparr>)"
    using assms by (simp add: ClientConfig_def ClientConfig_switch_def call_def)
  moreover have "filter in_cluster_event (calls m1) = filter in_cluster_event (calls m)"
    using assms(1) by (rule createClientConfig_in_cluster)
  ultimately show ?thesis by simp
qed

theorem explicit_config_precedence_witness:
  "Possible (sample_icc True) 2 = (True, 2)
   \<and> fst (ClientConfig
        (sample_packages (sample_handle (Some sample_rest, None) (''default'', False, None)))
        (sample_machine False (Some (sample_icc True)) 1))
     = Return (Some sample_rest, None)
   \<and> filter in_cluster_event (calls (snd (ClientConfig
        (sample_packages (sample_handle (Some sample_rest, None) (''default'', False, None)))
        (sample_machine False (Some (sample_icc True)) 1)))) = []"
proof -
  let ?h = "sample_handle (Some sample_rest, None) (''default'', False, None)"
  let ?K = "sample_packages ?h"
  let ?m = "sample_machine False (Some (sample_icc True)) 1"
  let ?m1 = "snd (createClientConfig ?K ?m)"
  have h1: "createClientConfig ?K ?m = (Return (Some ?h, None), ?m1)"
    by (simp add: sample_defs createClientConfig_def loadClientConfig_def call_def)
  have h2: "cc_ClientConfig ?h (world ?m1) = ((Some sample_rest, None), 2)"
    by (simp add: sample_defs createClientConfig_def loadClientConfig_def call_def)
  have h3: "loader (self ?m1) = Some (sample_loader False)"
    by (simp add: sample_defs createClientConfig_def loadClientConfig_def call_def)
  have h4: "IsDefaultConfig (sample_loader False) sample_rest 2 = (False, 2)"
    by (simp add: sample_loader_def)
  have h5: "Possible (sample_icc True) 2 = (True, 2)"
    by (simp add: sample_icc_def)
  have h6: "calls ?m = []"
    by (simp add: sample_machine_def)
  note run = explicit_config_precedence [OF h1 h2 h3 h4]
  have r1: "fst (ClientConfig ?K ?m) = Return (Some sample_rest, None)"
    using run [THEN conjunct1] by simp
  have r2: "filter in_cluster_event (calls (snd (ClientConfig ?K ?m))) = []"
    using run [THEN conjunct2] h6 by simp
  show ?thesis
    using h5 r1 r2 by blast
qed

text \<open>
  C2. As stated, the property covers a retrieval that yields a \<open>nil\<close> result (or a default
  one) together with an error that is not an empty-configuration error; such a retrieval
  is returned from at line 114, with that error, before the detector is looked at (the
  counterexample below). What holds: when the retrieval yields an empty-configuration
  error, or no error and either a \<open>nil\<close> result or a result the loader classifies as
  default, and the detector reports that in-cluster configuration is possible,
  \<open>ClientConfig\<close> returns what the detector's \<open>ClientConfig\<close> returns. \<open>w3\<close> is the world in
  which \<open>Possible\<close> is asked: the one after the retrieval, or after \<open>IsDefaultConfig\<close>
  where that is called.
\<close>

theorem in_cluster_fallback:
  assumes "createClientConfig K m = (Return (Some h, None), m1)"
    and "cc_ClientConfig h (world m1) = ((c, e), w2)"
    and "(\<exists>x. e = Some x \<and> IsEmptyConfig K x) \<and> w3 = w2
         \<or> e = None \<and> c = None \<and> w3 = w2
         \<or> e = None \<and> (\<exists>cfg ld. c = Some cfg \<and> loader (self m1) = Some ld
               \<and> IsDefaultConfig ld cfg w2 = (True, w3))"
    and "icc (self m1) = Some ic"
    and "Possible ic w3 = (True, w4)"
    and "cc_ClientConfig ic w4 = (r, w5)"
  shows "fst (ClientConfig K m) = Return r \<and> world (snd (ClientConfig K m)) = w5"
proof -
  let ?mid = "m1\<lparr>world := w2, calls := calls m1 @ [CallClientConfig]\<rparr>"
  obtain m3 where sw: "ClientConfig_switch K c e ?mid = (Inr (), m3)"
    and w: "world m3 = w3" and s: "self m3 = self m1"
    using assms(3)
    by (auto simp: ClientConfig_switch_def call_def)
  have "ClientConfig K m = ClientConfig_inCluster c e m3"
    using ClientConfig_resolved [OF assms(1,2)] sw by simp
  moreover have "ClientConfig_inCluster c e m3 =
    (Return r, m3\<lparr>world := w5, calls := calls m3 @ [CallPossible, CallInClusterClientConfig]\<rparr>)"
    using assms(4,5,6) w s by (intro ClientConfig_inCluster_possible) simp_all
  ultimately show ?thesis by simp
qed

theorem in_cluster_fallback_witness:
  "cc_ClientConfig (sample_handle (Some sample_rest, None) (''default'', False, None)) 2
     = ((Some sample_rest, None), 2)
   \<and> IsDefaultConfig (sample_loader True) sample_rest 2 = (True, 2)
   \<and> Possible (sample_icc True) 2 = (True, 2)
   \<and> fst (ClientConfig
        (sample_packages (sample_handle (Some sample_rest, None) (''default'', False, None)))
        (sample_machine True (Some (sample_icc True)) 1))
     = Return (Some in_cluster_rest, None)"
proof -
  let ?h = "sample_handle (Some sample_rest, None) (''default'', False, None)"
  let ?K = "sample_packages ?h"
  let ?init = "sample_machine True (Some (sample_icc True)) 1"
  let ?mid = "snd (createClientConfig ?K ?init)"
  have h0: "fst (createClientConfig ?K ?init) = Return (Some ?h, None)"
    by (simp add: sample_defs createClientConfig_def loadClientConfig_def call_def)
  then have h1: "createClientConfig ?K ?init = (Return (Some ?h, None), ?mid)"
    by (simp add: prod_eq_iff)
  have h2: "cc_ClientConfig ?h (world ?mid) = ((Some sample_rest, None), 2)"
    by (simp add: sample_defs createClientConfig_def loadClientConfig_def call_def)
  have d: "IsDefaultConfig (sample_loader True) sample_rest 2 = (True, 2)"
    by (simp add: sample_loader_def)
  have l: "loader (self ?mid) = Some (sample_loader True)"
    by (simp add: sample_defs createClientConfig_def loadClientConfig_def call_def)
  have h3: "(\<exists>x. (None :: error option) = Some x \<and> IsEmptyConfig ?K x) \<and> (2::nat) = 2
         \<or> (None :: error option) = None \<and> Some sample_rest = None \<and> (2::nat) = 2
         \<or> (None :: error option) = None \<and> (\<exists>cfg ld. Some sample_rest = Some cfg
               \<and> loader (self ?mid) = Some ld
               \<and> IsDefaultConfig ld cfg 2 = (True, 2))"
    using d l by simp
  have h4: "icc (self ?mid) = Some (sample_icc True)"
    by (simp add: sample_defs createClientConfig_def loadClientConfig_def call_def)
  have h5: "Possible (sample_icc True) 2 = (True, 2)"
    by (simp add: sample_icc_def)
  have h6: "cc_ClientConfig (sample_icc True) 2 = ((Some in_cluster_rest, None), 2)"
    by (simp add: sample_icc_def)
  have h7: "cc_ClientConfig ?h 2 = ((Some sample_rest, None), 2)"
    by (simp add: sample_handle_def)
  note run = in_cluster_fallback [OF h1 h2 h3 h4 h5 h6]
  show ?thesis
    using h7 d h5 run [THEN conjunct1] by blast
qed

theorem in_cluster_fallback_counterexample:
  "cc_ClientConfig (sample_handle (None, Some ''invalid configuration'') (''default'', False, None)) 2
     = ((None, Some ''invalid configuration''), 2)
   \<and> Possible (sample_icc True) 2 = (True, 2)
   \<and> cc_ClientConfig (sample_icc True) 2 = ((Some in_cluster_rest, None), 2)
   \<and> world (snd (createClientConfig
        (sample_packages
          (sample_handle (None, Some ''invalid configuration'') (''default'', False, None)))
        (sample_machine True (Some (sample_icc True)) 1))) = 2
   \<and> fst (ClientConfig
        (sample_packages
          (sample_handle (None, Some ''invalid configuration'') (''default'', False, None)))
        (sample_machine True (Some (sample_icc True)) 1))
     = Return (None, Some ''invalid configuration'')
   \<and> fst (ClientConfig
        (sample_packages
          (sample_handle (None, Some ''invalid configuration'') (''default'', False, None)))
        (sample_machine True (Some (sample_icc True)) 1))
     \<noteq> Return (Some in_cluster_rest, None)"
  by (simp add: sample_defs ClientConfig_def ClientConfig_switch_def createClientConfig_def
      loadClientConfig_def call_def)

text \<open>
  C3. Let the merged client configuration be resolved and retrieved, and let the \<open>switch\<close>
  end in \<open>s\<close>. Whatever identity \<open>u\<close>, \<open>gs\<close> the struct stores: when the \<open>switch\<close> returns
  (on the explicit branch it returns the retrieved configuration, otherwise an error)
  \<open>ClientConfig\<close> returns just that; on the in-cluster branch (the \<open>switch\<close> is left and
  the detector says possible) it returns what the detector returns; only on the last
  branch (the \<open>switch\<close> is left and the detector says not possible) the returned
  configuration is the retrieved one with \<open>u\<close> and \<open>gs\<close> written into its impersonation
  fields.
\<close>

theorem impersonation_only_on_fallback:
  assumes "createClientConfig K m = (Return (Some h, None), m1)"
    and "cc_ClientConfig h (world m1) = ((c, e), w2)"
    and "ClientConfig_switch K c e
           (m1\<lparr>world := w2, calls := calls m1 @ [CallClientConfig]\<rparr>) = (s, m3)"
  shows "(s = Inl returned \<longrightarrow>
            fst (ClientConfig K (withIdentity u gs m)) = returned)
       \<and> (s = Inr () \<and> icc (self m1) = Some ic \<and> Possible ic (world m3) = (True, w4)
            \<and> cc_ClientConfig ic w4 = (r, w5) \<longrightarrow>
            fst (ClientConfig K (withIdentity u gs m)) = Return r)
       \<and> (s = Inr () \<and> icc (self m1) = Some ic \<and> Possible ic (world m3) = (False, w4)
            \<and> c = Some cfg \<longrightarrow>
            fst (ClientConfig K (withIdentity u gs m)) =
              Return (Some (cfg\<lparr>Impersonate := (Impersonate cfg)
                                \<lparr>UserName := u, Groups := gs\<rparr>\<rparr>), e))"
proof -
  let ?mid = "m1\<lparr>world := w2, calls := calls m1 @ [CallClientConfig]\<rparr>"
  have create: "createClientConfig K (withIdentity u gs m) =
      (Return (Some h, None), withIdentity u gs m1)"
    using assms(1) by (simp add: createClientConfig_withIdentity)
  have retrieve: "cc_ClientConfig h (world (withIdentity u gs m1)) = ((c, e), w2)"
    using assms(2) by (simp add: withIdentity_fields)
  have mid: "(withIdentity u gs m1)\<lparr>world := w2,
      calls := calls (withIdentity u gs m1) @ [CallClientConfig]\<rparr> = withIdentity u gs ?mid"
    by (simp add: withIdentity_def)
  have switch: "ClientConfig_switch K c e (withIdentity u gs ?mid) = (s, withIdentity u gs m3)"
    using assms(3) by (simp add: ClientConfig_switch_withIdentity)
  have run: "ClientConfig K (withIdentity u gs m) =
      (case s of
         Inl returned \<Rightarrow> (returned, withIdentity u gs m3)
       | Inr _ \<Rightarrow> ClientConfig_inCluster c e (withIdentity u gs m3))"
    using ClientConfig_resolved [OF create retrieve] mid switch
    by (simp split: sum.splits)
  have same: "self m3 = self ?mid"
    using ClientConfig_switch_continues [OF assms(3)] by (simp add: continues_def)
  then have detector: "icc (self (withIdentity u gs m3)) = icc (self m1)"
    by (simp add: withIdentity_fields)
  have explicit: "s = Inl returned \<longrightarrow>
      fst (ClientConfig K (withIdentity u gs m)) = returned"
    using run by simp
  have in_cluster: "s = Inr () \<and> icc (self m1) = Some ic \<and> Possible ic (world m3) = (True, w4)
      \<and> cc_ClientConfig ic w4 = (r, w5) \<longrightarrow>
      fst (ClientConfig K (withIdentity u gs m)) = Return r"
  proof (intro impI, elim conjE)
    assume a: "s = Inr ()" "icc (self m1) = Some ic" "Possible ic (world m3) = (True, w4)"
      "cc_ClientConfig ic w4 = (r, w5)"
    have "ClientConfig_inCluster c e (withIdentity u gs m3) =
      (Return r, (withIdentity u gs m3)\<lparr>world := w5,
         calls := calls (withIdentity u gs m3) @ [CallPossible, CallInClusterClientConfig]\<rparr>)"
      using a detector
      by (intro ClientConfig_inCluster_possible) (simp_all add: withIdentity_fields)
    then show "fst (ClientConfig K (withIdentity u gs m)) = Return r"
      using run a(1) by simp
  qed
  have fallback: "s = Inr () \<and> icc (self m1) = Some ic \<and> Possible ic (world m3) = (False, w4)
      \<and> c = Some cfg \<longrightarrow>
      fst (ClientConfig K (withIdentity u gs m)) =
        Return (Some (cfg\<lparr>Impersonate := (Impersonate cfg)\<lparr>UserName := u, Groups := gs\<rparr>\<rparr>), e)"
  proof (intro impI, elim conjE)
    assume a: "s = Inr ()" "icc (self m1) = Some ic" "Possible ic (world m3) = (False, w4)"
      "c = Some cfg"
    have i: "icc (self (withIdentity u gs m3)) = Some ic"
      using a(2) detector by simp
    have p: "Possible ic (world (withIdentity u gs m3)) = (False, w4)"
      using a(3) by (simp add: withIdentity_fields)
    show "fst (ClientConfig K (withIdentity u gs m)) =
        Return (Some (cfg\<lparr>Impersonate := (Impersonate cfg)\<lparr>UserName := u, Groups := gs\<rparr>\<rparr>), e)"
      using run a(1,4) ClientConfig_inCluster_impossible [OF i p, of c e]
      by (simp add: withIdentity_fields)
  qed
  from explicit in_cluster fallback show ?thesis by blast
qed

theorem impersonation_only_on_fallback_witness:
  "fst (ClientConfig
      (sample_packages (sample_handle (Some sample_rest, None) (''default'', False, None)))
      (withIdentity ''bob'' [''dev''] (sample_machine False (Some (sample_icc True)) 1)))
    = Return (Some sample_rest, None)
   \<and> fst (ClientConfig
      (sample_packages (sample_handle (Some sample_rest, None) (''default'', False, None)))
      (withIdentity ''bob'' [''dev''] (sample_machine True (Some (sample_icc True)) 1)))
    = Return (Some in_cluster_rest, None)
   \<and> fst (ClientConfig
      (sample_packages (sample_handle (Some sample_rest, None) (''default'', False, None)))
      (withIdentity ''bob'' [''dev''] (sample_machine True (Some (sample_icc False)) 1)))
    = Return (Some \<lparr>Host = ''https://10.0.0.1:6443'',
                     Impersonate = \<lparr>UserName = ''bob'', Groups = [''dev'']\<rparr>\<rparr>, None)"
proof -
  let ?h = "sample_handle (Some sample_rest, None) (''default'', False, None)"
  let ?K = "sample_packages ?h"
  let ?c = "Some sample_rest"
  let ?e = "None :: error option"
  note ev = sample_defs createClientConfig_def loadClientConfig_def call_def
    ClientConfig_switch_def
  have explicit: "fst (ClientConfig ?K (withIdentity ''bob'' [''dev'']
      (sample_machine False (Some (sample_icc True)) 1))) = Return (Some sample_rest, None)"
  proof -
    let ?init = "sample_machine False (Some (sample_icc True)) 1"
    let ?res = "snd (createClientConfig ?K ?init)"
    let ?mid = "?res\<lparr>world := 2, calls := calls ?res @ [CallClientConfig]\<rparr>"
    let ?s = "Inl (Return (Some sample_rest, None))
      :: (rest_Config option \<times> error option) outcome + unit"
    have "fst (createClientConfig ?K ?init) = Return (Some ?h, None)"
      by (simp add: ev)
    then have h1: "createClientConfig ?K ?init = (Return (Some ?h, None), ?res)"
      by (simp add: prod_eq_iff)
    have h2: "cc_ClientConfig ?h (world ?res) = ((?c, ?e), 2)"
      by (simp add: ev)
    have "fst (ClientConfig_switch ?K ?c ?e ?mid) = ?s"
      by (simp add: ev)
    then have h3: "ClientConfig_switch ?K ?c ?e ?mid = (?s, snd (ClientConfig_switch ?K ?c ?e ?mid))"
      by (simp add: prod_eq_iff)
    from impersonation_only_on_fallback [OF h1 h2 h3, THEN conjunct1]
    show ?thesis by blast
  qed
  have in_cluster: "fst (ClientConfig ?K (withIdentity ''bob'' [''dev'']
      (sample_machine True (Some (sample_icc True)) 1))) = Return (Some in_cluster_rest, None)"
  proof -
    let ?init = "sample_machine True (Some (sample_icc True)) 1"
    let ?res = "snd (createClientConfig ?K ?init)"
    let ?mid = "?res\<lparr>world := 2, calls := calls ?res @ [CallClientConfig]\<rparr>"
    let ?s = "Inr () :: (rest_Config option \<times> error option) outcome + unit"
    let ?end = "snd (ClientConfig_switch ?K ?c ?e ?mid)"
    have "fst (createClientConfig ?K ?init) = Return (Some ?h, None)"
      by (simp add: ev)
    then have h1: "createClientConfig ?K ?init = (Return (Some ?h, None), ?res)"
      by (simp add: prod_eq_iff)
    have h2: "cc_ClientConfig ?h (world ?res) = ((?c, ?e), 2)"
      by (simp add: ev)
    have "fst (ClientConfig_switch ?K ?c ?e ?mid) = ?s"
      by (simp add: ev)
    then have h3: "ClientConfig_switch ?K ?c ?e ?mid = (?s, ?end)"
      by (simp add: prod_eq_iff)
    have p: "icc (self ?res) = Some (sample_icc True)"
      "Possible (sample_icc True) (world ?end) = (True, 2)"
      "cc_ClientConfig (sample_icc True) 2 = ((Some in_cluster_rest, None), 2)"
      by (simp_all add: ev)
    from impersonation_only_on_fallback [OF h1 h2 h3, THEN conjunct2, THEN conjunct1] p
    show ?thesis by blast
  qed
  have fallback: "fst (ClientConfig ?K (withIdentity ''bob'' [''dev'']
      (sample_machine True (Some (sample_icc False)) 1))) =
      Return (Some \<lparr>Host = ''https://10.0.0.1:6443'',
                     Impersonate = \<lparr>UserName = ''bob'', Groups = [''dev'']\<rparr>\<rparr>, None)"
  proof -
    let ?init = "sample_machine True (Some (sample_icc False)) 1"
    let ?res = "snd (createClientConfig ?K ?init)"
    let ?mid = "?res\<lparr>world := 2, calls := calls ?res @ [CallClientConfig]\<rparr>"
    let ?s = "Inr () :: (rest_Config option \<times> error option) outcome + unit"
    let ?end = "snd (ClientConfig_switch ?K ?c ?e ?mid)"
    have "fst (createClientConfig ?K ?init) = Return (Some ?h, None)"
      by (simp add: ev)
    then have h1: "createClientConfig ?K ?init = (Return (Some ?h, None), ?res)"
      by (simp add: prod_eq_iff)
    have h2: "cc_ClientConfig ?h (world ?res) = ((?c, ?e), 2)"
      by (simp add: ev)
    have "fst (ClientConfig_switch ?K ?c ?e ?mid) = ?s"
      by (simp add: ev)
    then have h3: "ClientConfig_switch ?K ?c ?e ?mid = (?s, ?end)"
      by (simp add: prod_eq_iff)
    have p: "icc (self ?res) = Some (sample_icc False)"
      "Possible (sample_icc False) (world ?end) = (False, 2)"
      by (simp_all add: ev)
    from impersonation_only_on_fallback [OF h1 h2 h3, THEN conjunct2, THEN conjunct2,
        of "sample_icc False" 2 sample_rest "''bob''" "[''dev'']"] p
    have "fst (ClientConfig ?K (withIdentity ''bob'' [''dev''] ?init)) =
       Return (Some (sample_rest\<lparr>Impersonate := (Impersonate sample_rest)
                                \<lparr>UserName := ''bob'', Groups := [''dev'']\<rparr>\<rparr>), None)"
      by blast
    then show ?thesis by (simp add: sample_rest_def)
  qed
  from explicit in_cluster fallback show ?thesis by blast
qed

text \<open>
  C4. With an empty-configuration error the retrieved pointer may be \<open>nil\<close>, and the
  \<open>switch\<close> knows it (its second case tests \<open>mergedConfig != nil\<close>); the assignments of
  lines 129--130 do not: when the detector reports that in-cluster configuration is not
  possible they write through the \<open>nil\<close> pointer. On the sample handle whose retrieval
  returns \<open>nil\<close> and the empty-configuration error, with a detector that answers
  \<open>false\<close>, \<open>ClientConfig\<close> panics instead of returning the configuration and the error.
\<close>

theorem nil_merged_config_panics:
  "cc_ClientConfig
     (sample_handle (None, Some ''no configuration has been provided'')
        (''default'', False, None)) 2
     = ((None, Some ''no configuration has been provided''), 2)
   \<and> IsEmptyConfig
        (sample_packages
          (sample_handle (None, Some ''no configuration has been provided'')
            (''default'', False, None)))
        ''no configuration has been provided''
   \<and> Possible (sample_icc False) 2 = (False, 2)
   \<and> world (snd (createClientConfig
        (sample_packages
          (sample_handle (None, Some ''no configuration has been provided'')
            (''default'', False, None)))
        (sample_machine True (Some (sample_icc False)) 1))) = 2
   \<and> fst (ClientConfig
        (sample_packages
          (sample_handle (None, Some ''no configuration has been provided'')
            (''default'', False, None)))
        (sample_machine True (Some (sample_icc False)) 1))
     = Panic"
  by (simp add: sample_defs ClientConfig_def ClientConfig_switch_def ClientConfig_inCluster_def
      createClientConfig_def loadClientConfig_def call_def)

text \<open>
  C5. Once \<open>createClientConfig\<close> has returned a handle, the handle is cached: after any
  sequence of further method calls on the struct, \<open>createClientConfig\<close> returns the same
  handle with a \<open>nil\<close> error and leaves the state as it is, the cache still holds that
  handle, and no further \<open>Load\<close> has been logged.
\<close>

theorem cache_immutable:
  assumes "createClientConfig K m0 = (Return (Some h, None), m)"
  shows "createClientConfig K (invokes K ops m) = (Return (Some h, None), invokes K ops m)
       \<and> clientConfig (self (invokes K ops m)) = Some h
       \<and> filter (\<lambda>e. e = CallLoad) (calls (invokes K ops m)) =
           filter (\<lambda>e. e = CallLoad) (calls m)"
proof -
  have set: "clientConfig (self m) = Some h"
    using assms by (rule createClientConfig_sets)
  then have "continues m (invokes K ops m)"
    by (rule invokes_cached)
  then have kept: "clientConfig (self (invokes K ops m)) = Some h"
    and loads: "filter (\<lambda>e. e = CallLoad) (calls (invokes K ops m)) =
           filter (\<lambda>e. e = CallLoad) (calls m)"
    using set by (simp_all add: continues_def)
  from kept have "createClientConfig K (invokes K ops m) =
      (Return (Some h, None), invokes K ops m)"
    by (rule createClientConfig_cached)
  with kept loads show ?thesis by simp
qed

theorem cache_immutable_witness:
  "fst (createClientConfig
     (sample_packages (sample_handle (Some sample_rest, None) (''default'', False, None)))
     (sample_machine True (Some (sample_icc True)) 1))
    = Return (Some (sample_handle (Some sample_rest, None) (''default'', False, None)), None)
   \<and> fst (createClientConfig
     (sample_packages (sample_handle (Some sample_rest, None) (''default'', False, None)))
     (invokes
       (sample_packages (sample_handle (Some sample_rest, None) (''default'', False, None)))
       [Do_ClientConfig, Do_createClientConfig, Do_Namespace, Do_RawConfig]
       (snd (createClientConfig
         (sample_packages (sample_handle (Some sample_rest, None) (''default'', False, None)))
         (sample_machine True (Some (sample_icc True)) 1)))))
    = Return (Some (sample_handle (Some sample_rest, None) (''default'', False, None)), None)
   \<and> filter (\<lambda>e. e = CallLoad) (calls (invokes
       (sample_packages (sample_handle (Some sample_rest, None) (''default'', False, None)))
       [Do_ClientConfig, Do_createClientConfig, Do_Namespace, Do_RawConfig]
       (snd (createClientConfig
         (sample_packages (sample_handle (Some sample_rest, None) (''default'', False, None)))
         (sample_machine True (Some (sample_icc True)) 1)))))
    = [CallLoad]"
proof -
  let ?h = "sample_handle (Some sample_rest, None) (''default'', False, None)"
  let ?K = "sample_packages ?h"
  let ?init = "sample_machine True (Some (sample_icc True)) 1"
  let ?m = "snd (createClientConfig ?K ?init)"
  let ?ops = "[Do_ClientConfig, Do_createClientConfig, Do_Namespace, Do_RawConfig]"
  have h0: "fst (createClientConfig ?K ?init) = Return (Some ?h, None)"
    by (simp add: sample_defs createClientConfig_def loadClientConfig_def call_def)
  then have h1: "createClientConfig ?K ?init = (Return (Some ?h, None), ?m)"
    by (simp add: prod_eq_iff)
  have h2: "calls ?m = [CallLoad]"
    by (simp add: sample_defs createClientConfig_def loadClientConfig_def call_def)
  note run = cache_immutable [OF h1, of ?ops]
  have r1: "fst (createClientConfig ?K (invokes ?K ?ops ?m)) = Return (Some ?h, None)"
    using run [THEN conjunct1] by (simp only: fst_conv)
  have "filter (\<lambda>e. e = CallLoad) (calls (invokes ?K ?ops ?m)) =
      filter (\<lambda>e. e = CallLoad) (calls ?m)"
    by (rule run [THEN conjunct2, THEN conjunct2])
  also have "\<dots> = [CallLoad]"
    using h2 by simp
  finally have r2: "filter (\<lambda>e. e = CallLoad) (calls (invokes ?K ?ops ?m)) = [CallLoad]" .
  show ?thesis using h0 r1 r2 by blast
qed

text \<open>
  C6. When the cache is empty and \<open>Load\<close> returns an error, \<open>createClientConfig\<close> returns
  that very error, and nothing of the struct changes: only the world and the call log
  move on, and the cache stays empty. The next \<open>createClientConfig\<close> calls \<open>Load\<close> again
  (the log holds a second \<open>CallLoad\<close>), and what it returns is decided by what this
  second \<open>Load\<close> returns: its error, or a freshly built handle.
\<close>

theorem load_failure_not_cached:
  assumes "clientConfig (self m) = None"
    and "loader (self m) = Some ld"
    and "Load ld (world m) = ((mc, Some e), w1)"
    and "Load ld w1 = (r, w2)"
  shows "fst (createClientConfig K m) = Return (None, Some e)
       \<and> snd (createClientConfig K m) = m\<lparr>world := w1, calls := calls m @ [CallLoad]\<rparr>
       \<and> clientConfig (self (snd (createClientConfig K m))) = None
       \<and> calls (snd (createClientConfig K (snd (createClientConfig K m)))) =
           calls m @ [CallLoad, CallLoad]
       \<and> world (snd (createClientConfig K (snd (createClientConfig K m)))) = w2
       \<and> fst (createClientConfig K (snd (createClientConfig K m))) =
           (case r of
              (_, Some e') \<Rightarrow> Return (None, Some e')
            | (None, None) \<Rightarrow> Panic
            | (Some mc', None) \<Rightarrow>
                (case overrides (self m) of
                   None \<Rightarrow> Panic
                 | Some ov \<Rightarrow>
                     Return
                      (Some (case fallbackReader (self m) of
                               Some rd \<Rightarrow>
                                 NewInteractiveClientConfig K mc' (ov_CurrentContext ov) ov rd ld
                             | None \<Rightarrow>
                                 NewNonInteractiveClientConfig K mc' (ov_CurrentContext ov) ov ld),
                       None)))"
proof -
  let ?after = "m\<lparr>world := w1, calls := calls m @ [CallLoad]\<rparr>"
  have first: "createClientConfig K m = (Return (None, Some e), ?after)"
    using assms(1-3) by (rule createClientConfig_load_error)
  have a1: "clientConfig (self ?after) = None" using assms(1) by simp
  have a2: "loader (self ?after) = Some ld" using assms(2) by simp
  have a3: "Load ld (world ?after) = (r, w2)" using assms(4) by simp
  note again = createClientConfig_load_again [OF a1 a2 a3, of K]
  have a4: "overrides (self ?after) = overrides (self m)"
    "fallbackReader (self ?after) = fallbackReader (self m)"
    by simp_all
  show ?thesis
    using first a1 again(1,2) again(3) [unfolded a4] by simp
qed

theorem load_failure_not_cached_witness:
  "fst (createClientConfig
     (sample_packages (sample_handle (Some sample_rest, None) (''default'', False, None)))
     (sample_machine True None 0)) = Return (None, Some ''unreadable'')
   \<and> clientConfig (self (snd (createClientConfig
     (sample_packages (sample_handle (Some sample_rest, None) (''default'', False, None)))
     (sample_machine True None 0)))) = None
   \<and> calls (snd (createClientConfig
     (sample_packages (sample_handle (Some sample_rest, None) (''default'', False, None)))
     (snd (createClientConfig
       (sample_packages (sample_handle (Some sample_rest, None) (''default'', False, None)))
       (sample_machine True None 0))))) = [CallLoad, CallLoad]
   \<and> fst (createClientConfig
     (sample_packages (sample_handle (Some sample_rest, None) (''default'', False, None)))
     (snd (createClientConfig
       (sample_packages (sample_handle (Some sample_rest, None) (''default'', False, None)))
       (sample_machine True None 0))))
     = Return (Some (sample_handle (Some sample_rest, None) (''default'', False, None)), None)"
proof -
  let ?h = "sample_handle (Some sample_rest, None) (''default'', False, None)"
  let ?K = "sample_packages ?h"
  let ?init = "sample_machine True None 0"
  have h1: "clientConfig (self ?init) = None"
    by (simp add: sample_defs)
  have h2: "loader (self ?init) = Some (sample_loader True)"
    by (simp add: sample_defs)
  have h3: "Load (sample_loader True) (world ?init) = ((None, Some ''unreadable''), 1)"
    by (simp add: sample_defs)
  have h4: "Load (sample_loader True) 1 = ((Some sample_raw, None), 2)"
    by (simp add: sample_defs)
  have h5: "calls ?init = []" "overrides (self ?init) = Some \<lparr>ov_CurrentContext = ''dev''\<rparr>"
    "fallbackReader (self ?init) = None"
    by (simp_all add: sample_defs)
  note run = load_failure_not_cached [OF h1 h2 h3 h4, of ?K]
  have r1: "fst (createClientConfig ?K ?init) = Return (None, Some ''unreadable'')"
    by (rule run [THEN conjunct1])
  have r2: "clientConfig (self (snd (createClientConfig ?K ?init))) = None"
    by (rule run [THEN conjunct2, THEN conjunct2, THEN conjunct1])
  have r3: "calls (snd (createClientConfig ?K (snd (createClientConfig ?K ?init)))) =
      [CallLoad, CallLoad]"
    using run [THEN conjunct2, THEN conjunct2, THEN conjunct2, THEN conjunct1] h5(1)
    by simp
  have r4: "fst (createClientConfig ?K (snd (createClientConfig ?K ?init))) =
      Return (Some ?h, None)"
    using run [THEN conjunct2, THEN conjunct2, THEN conjunct2, THEN conjunct2, THEN conjunct2]
      h5(2,3)
    by (simp add: sample_packages_def)
  show ?thesis using r1 r2 r3 r4 by blast
qed

text \<open>
  C7. As stated, the property covers a retrieval with an empty-configuration error and a
  detector that says not possible; there line 148 returns the triple with that error,
  not with \<open>nil\<close> (the counterexample below). What holds, for a struct with a detector:
  if the retrieval returns the default namespace name (a non-empty string), not
  overridden, with no error or an empty-configuration error, the current context of the
  raw configuration gives a non-empty namespace, and the detector says possible or the
  error is \<open>nil\<close>, then \<open>Namespace\<close> returns the default name, \<open>false\<close> and a \<open>nil\<close> error,
  and the detector's \<open>Namespace\<close> is not called.
\<close>

theorem explicit_default_namespace:
  assumes "createClientConfig K m = (Return (Some h, None), m1)"
    and "cc_Namespace h (world m1) = ((NamespaceDefault K, False, e), w2)"
    and "NamespaceDefault K \<noteq> []"
    and "e = None \<or> (\<exists>x. e = Some x \<and> IsEmptyConfig K x)"
    and "icc (self m1) = Some ic"
    and "Possible ic w2 = (possible, w3)"
    and "possible \<or> e = None"
    and "cc_RawConfig h w3 = ((raw, None), w4)"
    and "Contexts raw (CurrentContext raw) = Some context"
    and "ctx_Namespace context \<noteq> []"
  shows "fst (Namespace K m) = Return (NamespaceDefault K, False, None)
       \<and> filter (\<lambda>ev. ev = CallInClusterNamespace) (calls (snd (Namespace K m))) =
           filter (\<lambda>ev. ev = CallInClusterNamespace) (calls m)"
proof -
  let ?mid = "m1\<lparr>world := w2, calls := calls m1 @ [CallNamespace]\<rparr>"
  let ?asked = "?mid\<lparr>world := w3, calls := calls ?mid @ [CallPossible]\<rparr>"
  have soft: "\<not> ((case e of None \<Rightarrow> False | Some x \<Rightarrow> \<not> IsEmptyConfig K x) \<or> False)"
    using assms(4) by auto
  have ask: "call CallPossible (Possible ic) ?mid = (possible, ?asked)"
    using assms(6) by (simp add: call_def)
  have run: "Namespace K m =
      (if \<not> possible then (Return (NamespaceDefault K, False, e), ?asked)
       else Namespace_inCluster K h ic (NamespaceDefault K) ?asked)"
    using Namespace_resolved [OF assms(1,2) refl] soft assms(5) ask by simp
  have origin: "calls m1 = calls m \<or> calls m1 = calls m @ [CallLoad]"
    using assms(1) by (rule createClientConfig_frame(7))
  show ?thesis
  proof (cases possible)
    case True
    have "Namespace_inCluster K h ic (NamespaceDefault K) ?asked =
      (Return (NamespaceDefault K, False, None),
       ?asked\<lparr>world := w4, calls := calls ?asked @ [CallRawConfig]\<rparr>)"
      using assms(3,8,9,10)
      by (intro Namespace_inCluster_explicit_default) simp_all
    with run True origin show ?thesis by auto
  next
    case False
    then have "e = None" using assms(7) by simp
    with run False origin show ?thesis by auto
  qed
qed

theorem explicit_default_namespace_witness:
  "cc_Namespace (sample_handle (Some sample_rest, None)
       (''default'', False, Some ''no configuration has been provided'')) 2
     = ((''default'', False, Some ''no configuration has been provided''), 2)
   \<and> Possible (sample_icc True) 2 = (True, 2)
   \<and> Contexts sample_raw (CurrentContext sample_raw)
       = Some \<lparr>ctx_Cluster = ''c1'', ctx_AuthInfo = ''admin'', ctx_Namespace = ''default''\<rparr>
   \<and> fst (Namespace
      (sample_packages (sample_handle (Some sample_rest, None)
         (''default'', False, Some ''no configuration has been provided'')))
      (sample_machine True (Some (sample_icc True)) 1))
    = Return (''default'', False, None)
   \<and> filter (\<lambda>ev. ev = CallInClusterNamespace) (calls (snd (Namespace
      (sample_packages (sample_handle (Some sample_rest, None)
         (''default'', False, Some ''no configuration has been provided'')))
      (sample_machine True (Some (sample_icc True)) 1)))) = []"
proof -
  note ev = sample_defs createClientConfig_def loadClientConfig_def call_def
  let ?e = "Some ''no configuration has been provided''"
  let ?h = "sample_handle (Some sample_rest, None) (''default'', False, ?e)"
  let ?K = "sample_packages ?h"
  let ?init = "sample_machine True (Some (sample_icc True)) 1"
  let ?res = "snd (createClientConfig ?K ?init)"
  let ?ctx = "\<lparr>ctx_Cluster = ''c1'', ctx_AuthInfo = ''admin'', ctx_Namespace = ''default''\<rparr>"
  have "fst (createClientConfig ?K ?init) = Return (Some ?h, None)"
    by (simp add: ev)
  then have h1: "createClientConfig ?K ?init = (Return (Some ?h, None), ?res)"
    by (simp add: prod_eq_iff)
  have h2: "cc_Namespace ?h (world ?res) = ((NamespaceDefault ?K, False, ?e), 2)"
    by (simp add: ev)
  have h3: "NamespaceDefault ?K \<noteq> []"
    by (simp add: sample_packages_def)
  have h4: "?e = None \<or> (\<exists>x. ?e = Some x \<and> IsEmptyConfig ?K x)"
    by (simp add: sample_packages_def)
  have h5: "icc (self ?res) = Some (sample_icc True)"
    by (simp add: ev)
  have h6: "Possible (sample_icc True) 2 = (True, 2)"
    by (simp add: sample_icc_def)
  have h7: "True \<or> ?e = None"
    by simp
  have h8: "cc_RawConfig ?h 2 = ((sample_raw, None), 2)"
    by (simp add: sample_handle_def)
  have h9: "Contexts sample_raw (CurrentContext sample_raw) = Some ?ctx"
    by (simp add: sample_raw_def)
  have h10: "ctx_Namespace ?ctx \<noteq> []"
    by simp
  have n: "cc_Namespace ?h 2 = ((''default'', False, ?e), 2)"
    by (simp add: sample_handle_def)
  have d: "NamespaceDefault ?K = ''default''"
    by (simp add: sample_packages_def)
  have c: "calls ?init = []"
    by (simp add: sample_machine_def)
  note run = explicit_default_namespace [OF h1 h2 h3 h4 h5 h6 h7 h8 h9 h10]
  have r1: "fst (Namespace ?K ?init) = Return (''default'', False, None)"
    using run [THEN conjunct1] d by simp
  have "filter (\<lambda>ev. ev = CallInClusterNamespace) (calls (snd (Namespace ?K ?init))) =
      filter (\<lambda>ev. ev = CallInClusterNamespace) (calls ?init)"
    by (rule run [THEN conjunct2])
  also have "\<dots> = []"
    using c by simp
  finally have r2: "filter (\<lambda>ev. ev = CallInClusterNamespace)
      (calls (snd (Namespace ?K ?init))) = []" .
  show ?thesis using n h6 h9 r1 r2 by blast
qed

theorem explicit_default_namespace_counterexample:
  "cc_Namespace (sample_handle (Some sample_rest, None)
       (''default'', False, Some ''no configuration has been provided'')) 2
     = ((''default'', False, Some ''no configuration has been provided''), 2)
   \<and> IsEmptyConfig
       (sample_packages (sample_handle (Some sample_rest, None)
         (''default'', False, Some ''no configuration has been provided'')))
       ''no configuration has been provided''
   \<and> cc_RawConfig (sample_handle (Some sample_rest, None)
       (''default'', False, Some ''no configuration has been provided'')) 2
     = ((sample_raw, None), 2)
   \<and> Contexts sample_raw (CurrentContext sample_raw)
       = Some \<lparr>ctx_Cluster = ''c1'', ctx_AuthInfo = ''admin'', ctx_Namespace = ''default''\<rparr>
   \<and> Possible (sample_icc False) 2 = (False, 2)
   \<and> world (snd (createClientConfig
      (sample_packages (sample_handle (Some sample_rest, None)
         (''default'', False, Some ''no configuration has been provided'')))
      (sample_machine True (Some (sample_icc False)) 1))) = 2
   \<and> fst (Namespace
      (sample_packages (sample_handle (Some sample_rest, None)
         (''default'', False, Some ''no configuration has been provided'')))
      (sample_machine True (Some (sample_icc False)) 1))
    = Return (''default'', False, Some ''no configuration has been provided'')
   \<and> fst (Namespace
      (sample_packages (sample_handle (Some sample_rest, None)
         (''default'', False, Some ''no configuration has been provided'')))
      (sample_machine True (Some (sample_icc False)) 1))
    \<noteq> Return (''default'', False, None)"
  by (simp add: sample_defs Namespace_def createClientConfig_def loadClientConfig_def call_def)

text \<open>
  C8. When the namespace retrieval returns an error that is not an empty-configuration
  error, or reports the namespace as overridden, or the detector reports that in-cluster
  configuration is not possible, \<open>Namespace\<close> returns the retrieved namespace, flag and
  error as they are. After \<open>createClientConfig\<close> it has called the retrieval and at most
  \<open>Possible\<close>: neither the raw configuration nor the detector's namespace is asked for.
\<close>

theorem namespace_returned_unchanged:
  assumes "createClientConfig K m = (Return (Some h, None), m1)"
    and "cc_Namespace h (world m1) = ((ns, ov, e), w2)"
    and "(\<exists>x. e = Some x \<and> \<not> IsEmptyConfig K x) \<or> ov
         \<or> (\<exists>ic w3. icc (self m1) = Some ic \<and> Possible ic w2 = (False, w3))"
  shows "fst (Namespace K m) = Return (ns, ov, e)
       \<and> (calls (snd (Namespace K m)) = calls m1 @ [CallNamespace]
          \<or> calls (snd (Namespace K m)) = calls m1 @ [CallNamespace, CallPossible])
       \<and> filter (\<lambda>ev. ev = CallInClusterNamespace) (calls (snd (Namespace K m))) =
           filter (\<lambda>ev. ev = CallInClusterNamespace) (calls m)"
proof -
  let ?mid = "m1\<lparr>world := w2, calls := calls m1 @ [CallNamespace]\<rparr>"
  note run = Namespace_resolved [OF assms(1,2) refl]
  have result: "fst (Namespace K m) = Return (ns, ov, e)
       \<and> (calls (snd (Namespace K m)) = calls m1 @ [CallNamespace]
          \<or> calls (snd (Namespace K m)) = calls m1 @ [CallNamespace, CallPossible])"
  proof (cases "(case e of None \<Rightarrow> False | Some x \<Rightarrow> \<not> IsEmptyConfig K x) \<or> ov")
    case True
    then show ?thesis using run by simp
  next
    case False
    then obtain ic w3 where d: "icc (self m1) = Some ic" "Possible ic w2 = (False, w3)"
      using assms(3) by auto
    then show ?thesis using run False by (simp add: call_def)
  qed
  have "calls m1 = calls m \<or> calls m1 = calls m @ [CallLoad]"
    using assms(1) by (rule createClientConfig_frame(7))
  with result show ?thesis by auto
qed

theorem namespace_returned_unchanged_witness:
  "fst (Namespace
      (sample_packages (sample_handle (Some sample_rest, None) (''team-a'', True, None)))
      (sample_machine True (Some (sample_icc True)) 1))
    = Return (''team-a'', True, None)
   \<and> fst (Namespace
      (sample_packages (sample_handle (Some sample_rest, None)
         ([], False, Some ''invalid configuration'')))
      (sample_machine True (Some (sample_icc True)) 1))
    = Return ([], False, Some ''invalid configuration'')
   \<and> fst (Namespace
      (sample_packages (sample_handle (Some sample_rest, None) (''default'', False, None)))
      (sample_machine True (Some (sample_icc False)) 1))
    = Return (''default'', False, None)"
proof -
  note ev = sample_defs createClientConfig_def loadClientConfig_def call_def
  have overridden: "fst (Namespace
      (sample_packages (sample_handle (Some sample_rest, None) (''team-a'', True, None)))
      (sample_machine True (Some (sample_icc True)) 1)) = Return (''team-a'', True, None)"
  proof -
    let ?h = "sample_handle (Some sample_rest, None) (''team-a'', True, None)"
    let ?K = "sample_packages ?h"
    let ?init = "sample_machine True (Some (sample_icc True)) 1"
    let ?res = "snd (createClientConfig ?K ?init)"
    have "fst (createClientConfig ?K ?init) = Return (Some ?h, None)"
      by (simp add: ev)
    then have h1: "createClientConfig ?K ?init = (Return (Some ?h, None), ?res)"
      by (simp add: prod_eq_iff)
    have h2: "cc_Namespace ?h (world ?res) = ((''team-a'', True, None), 2)"
      by (simp add: ev)
    have h3: "(\<exists>x. (None :: error option) = Some x \<and> \<not> IsEmptyConfig ?K x) \<or> True
         \<or> (\<exists>ic w3. icc (self ?res) = Some ic \<and> Possible ic 2 = (False, w3))"
      by simp
    from namespace_returned_unchanged [OF h1 h2 h3, THEN conjunct1]
    show ?thesis .
  qed
  have hard: "fst (Namespace
      (sample_packages (sample_handle (Some sample_rest, None)
         ([], False, Some ''invalid configuration'')))
      (sample_machine True (Some (sample_icc True)) 1))
    = Return ([], False, Some ''invalid configuration'')"
  proof -
    let ?h = "sample_handle (Some sample_rest, None) ([], False, Some ''invalid configuration'')"
    let ?K = "sample_packages ?h"
    let ?init = "sample_machine True (Some (sample_icc True)) 1"
    let ?res = "snd (createClientConfig ?K ?init)"
    have "fst (createClientConfig ?K ?init) = Return (Some ?h, None)"
      by (simp add: ev)
    then have h1: "createClientConfig ?K ?init = (Return (Some ?h, None), ?res)"
      by (simp add: prod_eq_iff)
    have h2: "cc_Namespace ?h (world ?res) = (([], False, Some ''invalid configuration''), 2)"
      by (simp add: ev)
    have h3: "(\<exists>x. Some ''invalid configuration'' = Some x \<and> \<not> IsEmptyConfig ?K x) \<or> False
         \<or> (\<exists>ic w3. icc (self ?res) = Some ic \<and> Possible ic 2 = (False, w3))"
      by (simp add: sample_packages_def)
    from namespace_returned_unchanged [OF h1 h2 h3, THEN conjunct1]
    show ?thesis .
  qed
  have unavailable: "fst (Namespace
      (sample_packages (sample_handle (Some sample_rest, None) (''default'', False, None)))
      (sample_machine True (Some (sample_icc False)) 1)) = Return (''default'', False, None)"
  proof -
    let ?h = "sample_handle (Some sample_rest, None) (''default'', False, None)"
    let ?K = "sample_packages ?h"
    let ?init = "sample_machine True (Some (sample_icc False)) 1"
    let ?res = "snd (createClientConfig ?K ?init)"
    have "fst (createClientConfig ?K ?init) = Return (Some ?h, None)"
      by (simp add: ev)
    then have h1: "createClientConfig ?K ?init = (Return (Some ?h, None), ?res)"
      by (simp add: prod_eq_iff)
    have h2: "cc_Namespace ?h (world ?res) = ((''default'', False, None), 2)"
      by (simp add: ev)
    have "icc (self ?res) = Some (sample_icc False) \<and> Possible (sample_icc False) 2 = (False, 2)"
      by (simp add: ev)
    then have h3: "(\<exists>x. (None :: error option) = Some x \<and> \<not> IsEmptyConfig ?K x) \<or> False
         \<or> (\<exists>ic w3. icc (self ?res) = Some ic \<and> Possible ic 2 = (False, w3))"
      by blast
    from namespace_returned_unchanged [OF h1 h2 h3, THEN conjunct1]
    show ?thesis .
  qed
  from overridden hard unavailable show ?thesis by blast
qed

text \<open>
  C9. The constructor leaves \<open>icc\<close> \<open>nil\<close>, and no method assigns it: after any sequence of
  method calls on a struct from the constructor it is still \<open>nil\<close> and no call of the
  detector has been logged. On such a struct \<open>ClientConfig\<close> panics whenever its \<open>switch\<close>
  is left without a \<open>return\<close>, and \<open>Namespace\<close> panics whenever the retrieval reports the
  namespace as not overridden with no error or an empty-configuration error: these are
  the runs that reach \<open>config.icc.Possible()\<close>. The in-cluster results are returned only
  by structs whose \<open>icc\<close> was set by other code of the package.
\<close>

theorem constructor_leaves_detector_nil:
  assumes "self m0 = NewImpersonationClientConfig ld ov u gs"
    and "m = invokes K ops m0"
  shows "icc (self m0) = None \<and> icc (self m) = None
       \<and> filter in_cluster_event (calls m) = filter in_cluster_event (calls m0)
       \<and> (createClientConfig K m = (Return (Some h, None), m1)
            \<and> cc_ClientConfig h (world m1) = ((c, e), w2)
            \<and> ClientConfig_switch K c e
                 (m1\<lparr>world := w2, calls := calls m1 @ [CallClientConfig]\<rparr>) = (Inr (), m3)
          \<longrightarrow> fst (ClientConfig K m) = Panic)
       \<and> (createClientConfig K m = (Return (Some h, None), m1)
            \<and> cc_Namespace h (world m1) = ((ns, False, e'), w2')
            \<and> (e' = None \<or> (\<exists>x. e' = Some x \<and> IsEmptyConfig K x))
          \<longrightarrow> fst (Namespace K m) = Panic)"
proof -
  have init: "icc (self m0) = None"
    using assms(1) by (simp add: NewImpersonationClientConfig_def)
  then have nil: "icc (self m) = None"
    using assms(2) by (simp add: invokes_detector)
  have quiet: "filter in_cluster_event (calls m) = filter in_cluster_event (calls m0)"
    using init assms(2) by (simp add: invokes_no_detector)
  have cc: "createClientConfig K m = (Return (Some h, None), m1)
            \<and> cc_ClientConfig h (world m1) = ((c, e), w2)
            \<and> ClientConfig_switch K c e
                 (m1\<lparr>world := w2, calls := calls m1 @ [CallClientConfig]\<rparr>) = (Inr (), m3)
          \<longrightarrow> fst (ClientConfig K m) = Panic"
  proof (intro impI, elim conjE)
    assume a: "createClientConfig K m = (Return (Some h, None), m1)"
      "cc_ClientConfig h (world m1) = ((c, e), w2)"
      "ClientConfig_switch K c e
         (m1\<lparr>world := w2, calls := calls m1 @ [CallClientConfig]\<rparr>) = (Inr (), m3)"
    have "self m3 = self (m1\<lparr>world := w2, calls := calls m1 @ [CallClientConfig]\<rparr>)"
      using ClientConfig_switch_continues [OF a(3)] by (simp add: continues_def)
    then have "icc (self m3) = None"
      using createClientConfig_frame(6) [OF a(1)] nil by simp
    then have "ClientConfig_inCluster c e m3 = (Panic, m3)"
      by (rule ClientConfig_inCluster_nil)
    then show "fst (ClientConfig K m) = Panic"
      using ClientConfig_resolved [OF a(1,2)] a(3) by simp
  qed
  have ns: "createClientConfig K m = (Return (Some h, None), m1)
            \<and> cc_Namespace h (world m1) = ((ns, False, e'), w2')
            \<and> (e' = None \<or> (\<exists>x. e' = Some x \<and> IsEmptyConfig K x))
          \<longrightarrow> fst (Namespace K m) = Panic"
  proof (intro impI, elim conjE)
    assume a: "createClientConfig K m = (Return (Some h, None), m1)"
      "cc_Namespace h (world m1) = ((ns, False, e'), w2')"
      "e' = None \<or> (\<exists>x. e' = Some x \<and> IsEmptyConfig K x)"
    have "icc (self m1) = None"
      using createClientConfig_frame(6) [OF a(1)] nil by simp
    moreover have "\<not> ((case e' of None \<Rightarrow> False | Some x \<Rightarrow> \<not> IsEmptyConfig K x) \<or> False)"
      using a(3) by auto
    ultimately show "fst (Namespace K m) = Panic"
      using Namespace_resolved [OF a(1,2) refl] by simp
  qed
  from init nil quiet cc ns show ?thesis by blast
qed

theorem constructor_leaves_detector_nil_witness:
  "self (sample_machine True None 1)
     = NewImpersonationClientConfig (Some (sample_loader True))
         (Some \<lparr>ov_CurrentContext = ''dev''\<rparr>) ''alice'' [''ops'']
   \<and> icc (self (invokes
        (sample_packages (sample_handle (Some sample_rest, None) (''default'', False, None)))
        [Do_RawConfig] (sample_machine True None 1))) = None
   \<and> fst (ClientConfig
        (sample_packages (sample_handle (Some sample_rest, None) (''default'', False, None)))
        (invokes
          (sample_packages (sample_handle (Some sample_rest, None) (''default'', False, None)))
          [Do_RawConfig] (sample_machine True None 1))) = Panic
   \<and> fst (Namespace
        (sample_packages (sample_handle (Some sample_rest, None) (''default'', False, None)))
        (invokes
          (sample_packages (sample_handle (Some sample_rest, None) (''default'', False, None)))
          [Do_RawConfig] (sample_machine True None 1))) = Panic"
proof -
  note ev = sample_defs createClientConfig_def loadClientConfig_def call_def
    ClientConfig_switch_def RawConfig_def
  let ?h = "sample_handle (Some sample_rest, None) (''default'', False, None)"
  let ?K = "sample_packages ?h"
  let ?init = "sample_machine True None 1"
  let ?now = "invokes ?K [Do_RawConfig] ?init"
  let ?res = "snd (createClientConfig ?K ?now)"
  let ?mid = "?res\<lparr>world := 2, calls := calls ?res @ [CallClientConfig]\<rparr>"
  let ?c = "Some sample_rest"
  let ?e = "None :: error option"
  have h1: "self ?init = NewImpersonationClientConfig (Some (sample_loader True))
         (Some \<lparr>ov_CurrentContext = ''dev''\<rparr>) ''alice'' [''ops'']"
    by (simp add: sample_machine_def NewImpersonationClientConfig_def)
  have "fst (createClientConfig ?K ?now) = Return (Some ?h, None)"
    by (simp add: ev)
  then have a1: "createClientConfig ?K ?now = (Return (Some ?h, None), ?res)"
    by (simp add: prod_eq_iff)
  have a2: "cc_ClientConfig ?h (world ?res) = ((?c, ?e), 2)"
    by (simp add: ev)
  have "fst (ClientConfig_switch ?K ?c ?e ?mid) = Inr ()"
    by (simp add: ev)
  then have a3: "ClientConfig_switch ?K ?c ?e ?mid =
      (Inr (), snd (ClientConfig_switch ?K ?c ?e ?mid))"
    by (simp add: prod_eq_iff)
  have b2: "cc_Namespace ?h (world ?res) = ((''default'', False, ?e), 2)"
    by (simp add: ev)
  have b3: "?e = None \<or> (\<exists>x. ?e = Some x \<and> IsEmptyConfig ?K x)"
    by simp
  note run = constructor_leaves_detector_nil [OF h1 refl, of ?K "[Do_RawConfig]"]
  have r1: "icc (self ?now) = None"
    by (rule run [THEN conjunct2, THEN conjunct1])
  have r2: "fst (ClientConfig ?K ?now) = Panic"
    using run [THEN conjunct2, THEN conjunct2, THEN conjunct2, THEN conjunct1] a1 a2 a3
    by blast
  have r3: "fst (Namespace ?K ?now) = Panic"
    using run [THEN conjunct2, THEN conjunct2, THEN conjunct2, THEN conjunct2] a1 b2 b3
    by blast
  show ?thesis using h1 r1 r2 r3 by blast
qed

text \<open>
  C10. The constructor leaves \<open>fallbackReader\<close> \<open>nil\<close>, and no method assigns it. After any
  sequence of method calls on a struct from the constructor: the reader is still \<open>nil\<close>;
  a handle in the cache has been built by \<open>NewNonInteractiveClientConfig\<close> from the
  constructor's overrides and loader; and a handle that \<open>createClientConfig\<close> builds now
  is \<open>NewNonInteractiveClientConfig\<close> applied to the configuration that \<open>Load\<close> has just
  returned.
\<close>

theorem constructor_leaves_reader_nil:
  assumes "self m0 = NewImpersonationClientConfig ld ov u gs"
    and "m = invokes K ops m0"
  shows "fallbackReader (self m0) = None \<and> fallbackReader (self m) = None
       \<and> (clientConfig (self m) = Some h
          \<longrightarrow> (\<exists>mc ldr ovr. ld = Some ldr \<and> ov = Some ovr \<and>
                 h = NewNonInteractiveClientConfig K mc (ov_CurrentContext ovr) ovr ldr))
       \<and> (clientConfig (self m) = None \<and> fst (createClientConfig K m) = Return (Some h, None)
          \<longrightarrow> (\<exists>mc ldr ovr w1. ld = Some ldr \<and> ov = Some ovr \<and>
                 Load ldr (world m) = ((Some mc, None), w1) \<and>
                 h = NewNonInteractiveClientConfig K mc (ov_CurrentContext ovr) ovr ldr))"
proof -
  let ?I = "\<lambda>s. loader s = ld \<and> overrides s = ov \<and> fallbackReader s = None \<and>
      (\<forall>h. clientConfig s = Some h \<longrightarrow>
         (\<exists>mc ldr ovr. ld = Some ldr \<and> ov = Some ovr \<and>
            h = NewNonInteractiveClientConfig K mc (ov_CurrentContext ovr) ovr ldr))"
  have create: "?I (self (snd (createClientConfig K m)))" if "?I (self m)" for m
    using createClientConfig_self [of K m] that by auto
  have step: "?I (self (invoke K x m))" if "?I (self m)" for m x
    using invoke_self [of K x m] create [OF that] that by auto
  have "?I (self m0)"
    using assms(1) by (simp add: NewImpersonationClientConfig_def)
  then have "?I (self (invokes K ops m0))"
    using step by (intro invokes_invariant [where I = ?I]) blast+
  then have now: "?I (self m)"
    using assms(2) by simp
  have cached: "clientConfig (self (snd (createClientConfig K m))) = Some h"
    if "fst (createClientConfig K m) = Return (Some h, None)"
    using that createClientConfig_sets [of K m h "snd (createClientConfig K m)"]
    by (simp add: prod_eq_iff)
  have fresh: "clientConfig (self m) = None \<and> fst (createClientConfig K m) = Return (Some h, None)
          \<longrightarrow> (\<exists>mc ldr ovr w1. ld = Some ldr \<and> ov = Some ovr \<and>
                 Load ldr (world m) = ((Some mc, None), w1) \<and>
                 h = NewNonInteractiveClientConfig K mc (ov_CurrentContext ovr) ovr ldr)"
  proof (intro impI, elim conjE)
    assume a: "clientConfig (self m) = None" "fst (createClientConfig K m) = Return (Some h, None)"
    from cached [OF a(2)] a(1) createClientConfig_self [of K m] now
    show "\<exists>mc ldr ovr w1. ld = Some ldr \<and> ov = Some ovr \<and>
                 Load ldr (world m) = ((Some mc, None), w1) \<and>
                 h = NewNonInteractiveClientConfig K mc (ov_CurrentContext ovr) ovr ldr"
      by auto
  qed
  have "fallbackReader (self m0) = None"
    using assms(1) by (simp add: NewImpersonationClientConfig_def)
  with now fresh show ?thesis by blast
qed

theorem constructor_leaves_reader_nil_witness:
  "self (sample_machine True None 1)
     = NewImpersonationClientConfig (Some (sample_loader True))
         (Some \<lparr>ov_CurrentContext = ''dev''\<rparr>) ''alice'' [''ops'']
   \<and> fallbackReader (self (invokes
        (sample_packages (sample_handle (Some sample_rest, None) (''default'', False, None)))
        [Do_ConfigAccess] (sample_machine True None 1))) = None
   \<and> fst (createClientConfig
        (sample_packages (sample_handle (Some sample_rest, None) (''default'', False, None)))
        (invokes
          (sample_packages (sample_handle (Some sample_rest, None) (''default'', False, None)))
          [Do_ConfigAccess] (sample_machine True None 1)))
     = Return (Some (sample_handle (Some sample_rest, None) (''default'', False, None)), None)
   \<and> (\<exists>mc ldr ovr w1. Some (sample_loader True) = Some ldr
        \<and> Some \<lparr>ov_CurrentContext = ''dev''\<rparr> = Some ovr
        \<and> Load ldr (world (invokes
          (sample_packages (sample_handle (Some sample_rest, None) (''default'', False, None)))
          [Do_ConfigAccess] (sample_machine True None 1))) = ((Some mc, None), w1)
        \<and> sample_handle (Some sample_rest, None) (''default'', False, None)
          = NewNonInteractiveClientConfig
              (sample_packages
                (sample_handle (Some sample_rest, None) (''default'', False, None)))
              mc (ov_CurrentContext ovr) ovr ldr)"
proof -
  note ev = sample_defs createClientConfig_def loadClientConfig_def call_def
  let ?h = "sample_handle (Some sample_rest, None) (''default'', False, None)"
  let ?K = "sample_packages ?h"
  let ?init = "sample_machine True None 1"
  let ?now = "invokes ?K [Do_ConfigAccess] ?init"
  have h1: "self ?init = NewImpersonationClientConfig (Some (sample_loader True))
         (Some \<lparr>ov_CurrentContext = ''dev''\<rparr>) ''alice'' [''ops'']"
    by (simp add: sample_machine_def NewImpersonationClientConfig_def)
  have a1: "clientConfig (self ?now) = None"
    by (simp add: ev)
  have a2: "fst (createClientConfig ?K ?now) = Return (Some ?h, None)"
    by (simp add: ev)
  note run = constructor_leaves_reader_nil [OF h1 refl, of ?K "[Do_ConfigAccess]" ?h]
  have r1: "fallbackReader (self ?now) = None"
    by (rule run [THEN conjunct2, THEN conjunct1])
  have r2: "\<exists>mc ldr ovr w1. Some (sample_loader True) = Some ldr
        \<and> Some \<lparr>ov_CurrentContext = ''dev''\<rparr> = Some ovr
        \<and> Load ldr (world ?now) = ((Some mc, None), w1)
        \<and> ?h = NewNonInteractiveClientConfig ?K mc (ov_CurrentContext ovr) ovr ldr"
    using run [THEN conjunct2, THEN conjunct2, THEN conjunct2] a1 a2 by blast
  show ?thesis using h1 r1 a2 r2 by blast
qed

end
